theory Spec2Isabelle
  imports Complex_Main "HOL-Library.Sublist"
begin

section \<open>The queue-to-FHIR pipeline of \<^verbatim>\<open>packages/lambdas/src/sqs-to-fhir.ts\<close>\<close>

text \<open>
  A shallow embedding of the lambda handler that takes queued jobs, fetches the bundle
  each one points to, submits it as a batch to the FHIR server and retries the whole
  batch while the response reports failing entries.

  The handler talks to collaborators that live outside the file (S3, the FHIR client,
  the clock, Sentry, CloudWatch, \<^verbatim>\<open>JSON.parse\<close>). Each of them is a field of the
  environment \<open>Env\<close>; the stateful ones are functions of the history of calls made so
  far, so that the same request may be answered differently each time. The handler
  threads that history, a \<open>call list\<close> in chronological order, and appends one item
  per call together with what the call returned. A thrown exception is the \<open>Inl\<close>
  of a sum type. Console and prefixed logging is not modelled: it has no effect on the
  control flow or on any collaborator. What only reaches a log line or the \<^verbatim>\<open>extra\<close>
  of a capture call (the index of the record, its message id, the job id, the event) is
  left out with it.
\<close>

subsection \<open>JavaScript values\<close>

text \<open>A JavaScript number: a finite double is a rational, the rest are the special values.\<close>

datatype number = Finite rat | PosInfinity | NegInfinity | NaN

text \<open>
  The values \<^verbatim>\<open>JSON.parse\<close> produces, and \<^verbatim>\<open>undefined\<close>. An object is its
  list of own properties; a property is looked up with \<open>map_of\<close>.
\<close>

datatype jsval =
    JUndefined
  | JNull
  | JBool bool
  | JNumber number
  | JString string
  | JArray "jsval list"
  | JObject "(string \<times> jsval) list"

datatype error =
    Error string
  | TypeError string
  | SyntaxError string
  | MetriportError string "error option" "(string \<times> string) list option"

text \<open>\<^verbatim>\<open>!x\<close> is \<open>\<not> truthy x\<close>.\<close>

fun truthy :: "jsval \<Rightarrow> bool" where
  "truthy JUndefined = False"
| "truthy JNull = False"
| "truthy (JBool b) = b"
| "truthy (JNumber (Finite q)) = (q \<noteq> 0)"
| "truthy (JNumber NaN) = False"
| "truthy (JNumber PosInfinity) = True"
| "truthy (JNumber NegInfinity) = True"
| "truthy (JString s) = (s \<noteq> [])"
| "truthy (JArray xs) = True"
| "truthy (JObject kvs) = True"

text \<open>Truthiness of a value of type \<^verbatim>\<open>string | undefined\<close>.\<close>

fun truthyString :: "string option \<Rightarrow> bool" where
  "truthyString None = False"
| "truthyString (Some s) = (s \<noteq> [])"

text \<open>\<^verbatim>\<open>typeof x === "string"\<close>.\<close>

fun isString :: "jsval \<Rightarrow> bool" where
  "isString (JString s) = True"
| "isString v = False"

text \<open>
  \<^verbatim>\<open>v.name\<close>, for a name that no built-in prototype defines (the two names read by
  \<open>parseBody\<close> are such): a \<^verbatim>\<open>TypeError\<close> on \<^verbatim>\<open>null\<close> and
  \<^verbatim>\<open>undefined\<close>, the own property of an object, \<^verbatim>\<open>undefined\<close> otherwise.
\<close>

fun getProp :: "jsval \<Rightarrow> string \<Rightarrow> error + jsval" where
  "getProp JUndefined k = Inl (TypeError ''Cannot read properties of undefined'')"
| "getProp JNull k = Inl (TypeError ''Cannot read properties of null'')"
| "getProp (JObject kvs) k = (case map_of kvs k of None \<Rightarrow> Inr JUndefined | Some v \<Rightarrow> Inr v)"
| "getProp v k = Inr JUndefined"

text \<open>\<^verbatim>\<open>s.startsWith(p)\<close>.\<close>

definition startsWith :: "string \<Rightarrow> string \<Rightarrow> bool" where
  "startsWith s p = (take (length p) s = p)"

text \<open>\<^verbatim>\<open>n.toString()\<close> of a non-negative integer: its decimal digits.\<close>

definition digitChar :: "nat \<Rightarrow> char" where
  "digitChar d = ''0123456789'' ! d"

function toString :: "nat \<Rightarrow> string" where
  "toString n = (if n < 10 then [digitChar n] else toString (n div 10) @ [digitChar (n mod 10)])"
  by pat_completeness auto
termination
  by (relation "measure id") auto

declare toString.simps [simp del]

subsection \<open>The data of the pipeline\<close>

text \<open>An SQS message attribute, a queued message and the event of one invocation.\<close>

record SQSMessageAttribute =
  stringValue :: "string option"
  binaryValue :: "string option"
  dataType :: string

record SQSRecord =
  messageId :: string
  body :: "string option"
  messageAttributes :: "(string \<times> SQSMessageAttribute) list option"

record SQSEvent =
  Records :: "SQSRecord list option"

text \<open>The result of \<open>parseBody\<close>.\<close>

record EventBody =
  s3BucketName :: string
  s3FileName :: string

text \<open>A FHIR bundle, as far as the handler reads it.\<close>

record BundleEntryResponse =
  status :: "string option"

record BundleEntry =
  fullUrl :: "string option"
  resource :: "jsval option"
  response :: "BundleEntryResponse option"

record Bundle =
  entry :: "BundleEntry list option"

text \<open>
  One metric: a duration in milliseconds (\<open>None\<close> is \<^verbatim>\<open>NaN\<close>) or a count, with the
  clock reading of its \<^verbatim>\<open>timestamp\<close>.
\<close>

datatype Metric = DurationMetric "int option" int | CountMetric nat int

record Metrics =
  download :: "Metric option"
  upsert :: "Metric option"
  errorCount :: "Metric option"
  job :: "Metric option"

record S3RetriesConfig =
  maxAttempts :: nat
  initialDelay :: nat

subsection \<open>Collaborators and the history of calls\<close>

datatype call =
    DateNow int
  | ExecuteWithRetriesS3 S3RetriesConfig string string "error + string"
  | ParseRawBundleForFhirServer string string "error + Bundle"
  | ExecuteBatch string Bundle "error + Bundle option"
  | CaptureMessage string "string option"
  | CaptureError string error
  | ReportMetrics Metrics

text \<open>
  The environment. \<open>dateNow\<close> is the clock (\<^verbatim>\<open>Date.now()\<close> and \<^verbatim>\<open>new Date()\<close>),
  \<open>dateParse\<close> is \<^verbatim>\<open>new Date(s).getTime()\<close> with \<open>None\<close> for \<^verbatim>\<open>NaN\<close>,
  \<open>executeWithRetriesS3\<close> is the retried read of one object,
  \<open>executeBatch\<close> is \<^verbatim>\<open>executeWithNetworkRetries(() => fhirApi.executeBatch(payload))\<close>
  on the client of one customer.
\<close>

record Env =
  lambdaName :: string
  jsonParse :: "string \<Rightarrow> error + jsval"
  dateNow :: "call list \<Rightarrow> int"
  dateParse :: "string \<Rightarrow> int option"
  executeWithRetriesS3 :: "call list \<Rightarrow> S3RetriesConfig \<Rightarrow> string \<Rightarrow> string \<Rightarrow> error + string"
  parseRawBundleForFhirServer :: "string \<Rightarrow> string \<Rightarrow> error + Bundle"
  executeBatch :: "call list \<Rightarrow> string \<Rightarrow> Bundle \<Rightarrow> error + Bundle option"

definition maxRetries :: nat where
  "maxRetries = 10"

definition defaultS3RetriesConfig :: S3RetriesConfig where
  "defaultS3RetriesConfig = \<lparr>maxAttempts = 3, initialDelay = 500\<rparr>"

text \<open>
  Modelled from the spec: \<^verbatim>\<open>capture.message\<close>, \<^verbatim>\<open>capture.error\<close> (of
  \<^verbatim>\<open>./shared/capture\<close>) and \<^verbatim>\<open>cloudWatchUtils.reportMetrics\<close> (of
  \<^verbatim>\<open>./shared/cloudwatch\<close>) are not among the sources. The spec calls both sinks
  fire-and-forget and best-effort: a call is recorded and always returns.
\<close>

definition captureMessage :: "string \<Rightarrow> string option \<Rightarrow> call list \<Rightarrow> call list" where
  "captureMessage msg level h = h @ [CaptureMessage msg level]"

definition captureError :: "string \<Rightarrow> error \<Rightarrow> call list \<Rightarrow> call list" where
  "captureError msg err h = h @ [CaptureError msg err]"

definition reportMetrics :: "Metrics \<Rightarrow> call list \<Rightarrow> call list" where
  "reportMetrics m h = h @ [ReportMetrics m]"

subsection \<open>\<open>parseBody\<close>\<close>

definition parseBody :: "Env \<Rightarrow> jsval \<Rightarrow> error + EventBody" where
  "parseBody env b =
     (let bodyString = (case b of JString s \<Rightarrow> Some s | _ \<Rightarrow> None) in
      if \<not> truthyString bodyString then Inl (Error ''Invalid body'')
      else case jsonParse env (the bodyString) of
        Inl e \<Rightarrow> Inl e
      | Inr bodyAsJson \<Rightarrow>
         (case getProp bodyAsJson ''s3BucketName'' of
            Inl e \<Rightarrow> Inl e
          | Inr s3BucketNameRaw \<Rightarrow>
             if \<not> truthy s3BucketNameRaw then Inl (Error ''Missing s3BucketName'')
             else if \<not> isString s3BucketNameRaw then Inl (Error ''Invalid s3BucketName'')
             else (case getProp bodyAsJson ''s3FileName'' of
                Inl e \<Rightarrow> Inl e
              | Inr s3FileNameRaw \<Rightarrow>
                 if \<not> truthy s3FileNameRaw then Inl (Error ''Missing s3FileName'')
                 else if \<not> isString s3FileNameRaw then Inl (Error ''Invalid s3FileName'')
                 else (case (s3BucketNameRaw, s3FileNameRaw) of
                    (JString bucket, JString file) \<Rightarrow>
                      Inr \<lparr>s3BucketName = bucket, s3FileName = file\<rparr>
                  | _ \<Rightarrow> Inl (TypeError ''unreachable'')))))"

subsection \<open>\<open>getErrorsFromReponse\<close>\<close>

text \<open>\<^verbatim>\<open>response?.entry ? response.entry : []\<close>; an array, even an empty one, is truthy.\<close>

definition responseEntries :: "Bundle option \<Rightarrow> BundleEntry list" where
  "responseEntries r =
     (case r of None \<Rightarrow> [] | Some b \<Rightarrow> (case entry b of None \<Rightarrow> [] | Some es \<Rightarrow> es))"

text \<open>
  \<^verbatim>\<open>e.response?.status?.startsWith("2")\<close>: \<open>None\<close> is the \<^verbatim>\<open>undefined\<close> of a
  chain that stopped early.
\<close>

definition statusStartsWith2 :: "BundleEntry \<Rightarrow> bool option" where
  "statusStartsWith2 e =
     (case response e of
        None \<Rightarrow> None
      | Some r \<Rightarrow> (case status r of None \<Rightarrow> None | Some s \<Rightarrow> Some (startsWith s ''2'')))"

definition getErrorsFromReponse :: "Bundle option \<Rightarrow> BundleEntry list" where
  "getErrorsFromReponse r =
     filter (\<lambda>e. \<not> (statusStartsWith2 e = Some True)) (responseEntries r)"

subsection \<open>The retry loop (lines 125 to 145)\<close>

text \<open>
  One iteration increments \<open>count\<close>, submits the batch and evaluates the response. The
  flag \<^verbatim>\<open>retry\<close> is true on entry and, where the iteration neither breaks nor throws,
  stays true, so the loop is the recursion below. It returns the last response and
  the final \<open>count\<close>, or the error thrown.
\<close>

function retryLoop ::
  "Env \<Rightarrow> string \<Rightarrow> Bundle \<Rightarrow> nat \<Rightarrow> call list \<Rightarrow> (error + Bundle option \<times> nat) \<times> call list"
where
  "retryLoop env cxId payload n h =
     (let n1 = n + 1;
          r = executeBatch env h cxId payload;
          h1 = h @ [ExecuteBatch cxId payload r]
      in case r of
           Inl e \<Rightarrow> (Inl e, h1)
         | Inr resp \<Rightarrow>
             if length (getErrorsFromReponse resp) \<le> 0 then (Inr (resp, n1), h1)
             else if \<not> n1 < maxRetries then
               (Inl (MetriportError ''Too many errors from FHIR'' None
                      (Some [(''count'', toString n1), (''maxRetries'', toString maxRetries)])),
                h1)
             else retryLoop env cxId payload n1 h1)"
  by pat_completeness auto
termination
  by (relation "measure (\<lambda>(env, cxId, payload, n, h). maxRetries - n)") auto

declare retryLoop.simps [simp del]

subsection \<open>\<open>processFHIRResponse\<close>\<close>

definition processFHIRResponse :: "Bundle option \<Rightarrow> call list \<Rightarrow> call list" where
  "processFHIRResponse resp h =
     (let entries = responseEntries resp;
          errors = getErrorsFromReponse resp;
          countError = length errors;
          countSuccess = int (length entries) - int countError
      in if length errors > 0
         then captureMessage ''Error upserting Bundle on FHIR server'' (Some ''error'') h
         else h)"

subsection \<open>One job (the body of the loop over the records, lines 83 to 164)\<close>

definition emptyMetrics :: Metrics where
  "emptyMetrics = \<lparr>download = None, upsert = None, errorCount = None, job = None\<rparr>"

text \<open>Lines 146 to 164: the metrics of the attempts, the job age, the report.\<close>

definition finishJob ::
  "Env \<Rightarrow> string option \<Rightarrow> Metrics \<Rightarrow> int \<Rightarrow> Bundle option \<Rightarrow> nat \<Rightarrow> call list
     \<Rightarrow> (error + unit) \<times> call list"
where
  "finishJob env jobStartedAt metrics upsertStart resp n h =
     (let ts1 = dateNow env h; h1 = h @ [DateNow ts1];
          metrics1 = metrics\<lparr>errorCount := Some (CountMetric n ts1)\<rparr>;
          t2 = dateNow env h1; h2 = h1 @ [DateNow t2];
          ts2 = dateNow env h2; h3 = h2 @ [DateNow ts2];
          metrics2 = metrics1\<lparr>upsert := Some (DurationMetric (Some (t2 - upsertStart)) ts2)\<rparr>;
          (metrics3, h5) =
            (if truthyString jobStartedAt then
               (let t3 = dateNow env h3; h4 = h3 @ [DateNow t3];
                    ts3 = dateNow env h4;
                    d = (case dateParse env (the jobStartedAt) of
                           None \<Rightarrow> None | Some started \<Rightarrow> Some (t3 - started))
                in (metrics2\<lparr>job := Some (DurationMetric d ts3)\<rparr>, h4 @ [DateNow ts3]))
             else (metrics2, h3));
          h6 = processFHIRResponse resp h5
      in (Inr (), reportMetrics metrics3 h6))"

text \<open>Lines 98 to 145: the download, the parse and the retry loop.\<close>

definition processJob ::
  "Env \<Rightarrow> string \<Rightarrow> string \<Rightarrow> string option \<Rightarrow> EventBody \<Rightarrow> call list
     \<Rightarrow> (error + unit) \<times> call list"
where
  "processJob env cxId patientId jobStartedAt eb h =
     (let downloadStart = dateNow env h; h1 = h @ [DateNow downloadStart];
          fetched = executeWithRetriesS3 env h1 defaultS3RetriesConfig
                      (s3BucketName eb) (s3FileName eb);
          h2 = h1 @ [ExecuteWithRetriesS3 defaultS3RetriesConfig
                       (s3BucketName eb) (s3FileName eb) fetched]
      in case fetched of
           Inl e \<Rightarrow> (Inl e, h2)
         | Inr payloadRaw \<Rightarrow>
            (let t1 = dateNow env h2; h3 = h2 @ [DateNow t1];
                 ts1 = dateNow env h3; h4 = h3 @ [DateNow ts1];
                 metrics = emptyMetrics
                   \<lparr>download := Some (DurationMetric (Some (t1 - downloadStart)) ts1)\<rparr>;
                 parsed = parseRawBundleForFhirServer env payloadRaw patientId;
                 h5 = h4 @ [ParseRawBundleForFhirServer payloadRaw patientId parsed]
             in case parsed of
                  Inl e \<Rightarrow> (Inl e, h5)
                | Inr payload \<Rightarrow>
                   (let upsertStart = dateNow env h5; h6 = h5 @ [DateNow upsertStart]
                    in case retryLoop env cxId payload 0 h6 of
                         (Inl e, h7) \<Rightarrow> (Inl e, h7)
                       | (Inr (resp, n), h7) \<Rightarrow>
                           finishJob env jobStartedAt metrics upsertStart resp n h7)))"

text \<open>\<^verbatim>\<open>attrib.name?.stringValue\<close>.\<close>

definition attribString :: "(string \<times> SQSMessageAttribute) list \<Rightarrow> string \<Rightarrow> string option" where
  "attribString attrib k = (case map_of attrib k of None \<Rightarrow> None | Some a \<Rightarrow> stringValue a)"

text \<open>Lines 84 to 97: the checks on the message, then the job.\<close>

definition processRecord :: "Env \<Rightarrow> SQSRecord \<Rightarrow> call list \<Rightarrow> (error + unit) \<times> call list" where
  "processRecord env message h =
     (case messageAttributes message of
        None \<Rightarrow> (Inl (Error ''Missing message attributes''), h)
      | Some attrib \<Rightarrow>
         if \<not> truthyString (body message) then (Inl (Error ''Missing message body''), h)
         else
          (let cxId = attribString attrib ''cxId'';
               patientId = attribString attrib ''patientId'';
               jobId = attribString attrib ''jobId'';
               jobStartedAt = attribString attrib ''startedAt''
           in if \<not> truthyString cxId then (Inl (Error ''Missing cxId''), h)
              else if \<not> truthyString patientId then (Inl (Error ''Missing patientId''), h)
              else case parseBody env (JString (the (body message))) of
                     Inl e \<Rightarrow> (Inl e, h)
                   | Inr eb \<Rightarrow> processJob env (the cxId) (the patientId) jobStartedAt eb h))"

subsection \<open>\<open>handler\<close>\<close>

text \<open>The loop over the records: the first job that throws ends it.\<close>

fun processRecords :: "Env \<Rightarrow> SQSRecord list \<Rightarrow> call list \<Rightarrow> (error + unit) \<times> call list" where
  "processRecords env [] h = (Inr (), h)"
| "processRecords env (message # rest) h =
     (case processRecord env message h of
        (Inl e, h1) \<Rightarrow> (Inl e, h1)
      | (Inr u, h1) \<Rightarrow> processRecords env rest h1)"

text \<open>The \<^verbatim>\<open>try\<close> block (lines 65 to 166).\<close>

definition handlerBody :: "Env \<Rightarrow> SQSEvent \<Rightarrow> call list \<Rightarrow> (error + unit) \<times> call list" where
  "handlerBody env event h =
     (case Records event of
        None \<Rightarrow> (Inr (), h)
      | Some records \<Rightarrow>
         if length records < 1 then (Inr (), h)
         else
          (let h1 = (if length records > 1
                     then captureMessage ''Got more than one message from SQS'' None h
                     else h)
           in processRecords env records h1))"

text \<open>The handler: the \<^verbatim>\<open>try\<close> block and its \<^verbatim>\<open>catch\<close> (lines 167 to 174).\<close>

definition handler :: "Env \<Rightarrow> SQSEvent \<Rightarrow> call list \<Rightarrow> (error + unit) \<times> call list" where
  "handler env event h =
     (case handlerBody env event h of
        (Inr u, h1) \<Rightarrow> (Inr u, h1)
      | (Inl err, h1) \<Rightarrow>
         (let msg = ''Error processing event on '' @ lambdaName env;
              h2 = captureError msg err h1
          in (Inl (MetriportError msg (Some err) None), h2)))"

subsection \<open>Reading the history\<close>

fun isDateNow :: "call \<Rightarrow> bool" where
  "isDateNow (DateNow t) = True"
| "isDateNow c = False"

fun isFetch :: "call \<Rightarrow> bool" where
  "isFetch (ExecuteWithRetriesS3 cfg bucket key r) = True"
| "isFetch c = False"

fun isParse :: "call \<Rightarrow> bool" where
  "isParse (ParseRawBundleForFhirServer raw patientId r) = True"
| "isParse c = False"

fun isExecuteBatch :: "call \<Rightarrow> bool" where
  "isExecuteBatch (ExecuteBatch cxId payload r) = True"
| "isExecuteBatch c = False"

fun isCaptureMessage :: "call \<Rightarrow> bool" where
  "isCaptureMessage (CaptureMessage msg level) = True"
| "isCaptureMessage c = False"

fun isCaptureError :: "call \<Rightarrow> bool" where
  "isCaptureError (CaptureError msg err) = True"
| "isCaptureError c = False"

fun isReportMetrics :: "call \<Rightarrow> bool" where
  "isReportMetrics (ReportMetrics m) = True"
| "isReportMetrics c = False"

text \<open>The locators of the objects fetched, in the order of the fetches.\<close>

fun fetchTargets :: "call list \<Rightarrow> (string \<times> string) list" where
  "fetchTargets [] = []"
| "fetchTargets (ExecuteWithRetriesS3 cfg bucket key r # cs) = (bucket, key) # fetchTargets cs"
| "fetchTargets (c # cs) = fetchTargets cs"

text \<open>The metrics records handed to the sink, in the order of the reports.\<close>

fun reportedMetrics :: "call list \<Rightarrow> Metrics list" where
  "reportedMetrics [] = []"
| "reportedMetrics (ReportMetrics m # cs) = m # reportedMetrics cs"
| "reportedMetrics (c # cs) = reportedMetrics cs"

text \<open>
  A submission whose response reports at least one failing entry, and one whose response
  reports none. A submission that threw is neither.
\<close>

definition attemptFailed :: "error + Bundle option \<Rightarrow> bool" where
  "attemptFailed r = (case r of Inl e \<Rightarrow> False | Inr resp \<Rightarrow> getErrorsFromReponse resp \<noteq> [])"

definition attemptClean :: "error + Bundle option \<Rightarrow> bool" where
  "attemptClean r = (case r of Inl e \<Rightarrow> False | Inr resp \<Rightarrow> getErrorsFromReponse resp = [])"

text \<open>The error of line 140, for a given \<open>count\<close>.\<close>

definition tooManyErrors :: "nat \<Rightarrow> error" where
  "tooManyErrors n =
     MetriportError ''Too many errors from FHIR'' None
       (Some [(''count'', toString n), (''maxRetries'', toString maxRetries)])"

text \<open>
  How the result of the loop, started with \<open>count = n\<close>, relates to the results \<open>rs\<close>
  of its submissions.
\<close>

definition loopOutcome ::
  "nat \<Rightarrow> (error + Bundle option) list \<Rightarrow> (error + Bundle option \<times> nat) \<Rightarrow> bool"
where
  "loopOutcome n rs res =
     (case res of
        Inr (resp, m) \<Rightarrow> last rs = Inr resp \<and> getErrorsFromReponse resp = [] \<and> m = n + length rs
      | Inl e \<Rightarrow> last rs = Inl e
                 \<or> (attemptFailed (last rs) \<and> maxRetries \<le> n + length rs
                     \<and> e = tooManyErrors (n + length rs)))"

text \<open>The history once the handler has looked at the number of records (lines 71 to 79).\<close>

definition afterCardinalityCheck :: "SQSRecord list \<Rightarrow> call list \<Rightarrow> call list" where
  "afterCardinalityCheck records h =
     (if length records > 1
      then h @ [CaptureMessage ''Got more than one message from SQS'' None] else h)"

text \<open>The message of the error the handler rethrows (line 168).\<close>

definition handlerErrorMessage :: "Env \<Rightarrow> string" where
  "handlerErrorMessage env = ''Error processing event on '' @ lambdaName env"

subsection \<open>The wording of the specification\<close>

text \<open>
  The status of an entry "does not start with 2": said of the status string itself,
  a missing status counting as one that does not.
\<close>

fun statusFails :: "string option \<Rightarrow> bool" where
  "statusFails None = True"
| "statusFails (Some []) = True"
| "statusFails (Some (c # cs)) = (c \<noteq> CHR ''2'')"

definition entryFails :: "BundleEntry \<Rightarrow> bool" where
  "entryFails e = (case response e of None \<Rightarrow> True | Some r \<Rightarrow> statusFails (status r))"

text \<open>
  The status is "a valid HTTP status code from 200 to 299": the digit 2 and two more
  digits, then the end of the string or the optional text, which does not go on with
  a digit.
\<close>

definition isDigit :: "char \<Rightarrow> bool" where
  "isDigit c = (c \<in> set ''0123456789'')"

fun is2xxStatus :: "string \<Rightarrow> bool" where
  "is2xxStatus (a # b # c # rest) =
     (a = CHR ''2'' \<and> isDigit b \<and> isDigit c \<and> (case rest of [] \<Rightarrow> True | d # ds \<Rightarrow> \<not> isDigit d))"
| "is2xxStatus s = False"

definition entryIn2xxRange :: "BundleEntry \<Rightarrow> bool" where
  "entryIn2xxRange e =
     (case response e of
        None \<Rightarrow> False
      | Some r \<Rightarrow> (case status r of None \<Rightarrow> False | Some s \<Rightarrow> is2xxStatus s))"

text \<open>
  The outcome the evaluator derives for an entry: a success when the entry is not among
  the errors of a response that holds it.
\<close>

definition entrySucceeded :: "BundleEntry \<Rightarrow> bool" where
  "entrySucceeded e = (e \<notin> set (getErrorsFromReponse (Some \<lparr>entry = Some [e]\<rparr>)))"

text \<open>The queue message "carried a \<^verbatim>\<open>startedAt\<close> attribute".\<close>

definition carriesStartedAt :: "SQSRecord \<Rightarrow> bool" where
  "carriesStartedAt message =
     (case messageAttributes message of
        None \<Rightarrow> False
      | Some attrib \<Rightarrow> map_of attrib ''startedAt'' \<noteq> None)"

text \<open>
  The interface of the queue message (section 6 of the specification): the
  \<^verbatim>\<open>startedAt\<close> attribute is optional and, where the message carries it, it is a
  string, the non-empty \<^verbatim>\<open>stringValue\<close> of the attribute.
\<close>

definition startedAtIsString :: "SQSRecord \<Rightarrow> bool" where
  "startedAtIsString message =
     (case messageAttributes message of
        None \<Rightarrow> True
      | Some attrib \<Rightarrow>
         (case map_of attrib ''startedAt'' of
            None \<Rightarrow> True
          | Some a \<Rightarrow> truthyString (stringValue a)))"

text \<open>The locator a record names in its body, where the body is accepted.\<close>

definition recordTarget :: "Env \<Rightarrow> SQSRecord \<Rightarrow> (string \<times> string) option" where
  "recordTarget env message =
     (case body message of
        None \<Rightarrow> None
      | Some b \<Rightarrow>
         (case parseBody env (JString b) of
            Inl e \<Rightarrow> None
          | Inr eb \<Rightarrow> Some (s3BucketName eb, s3FileName eb)))"

subsection \<open>An example deployment\<close>

text \<open>
  The scenario of the specification: the body names \<^verbatim>\<open>bucket1\<close> and
  \<^verbatim>\<open>patientA.json\<close>, the blob is a bundle of three entries, the first submission
  comes back with one failing entry and every later one with none.
\<close>

definition exampleBodyText :: string where
  \<open>exampleBodyText = ''{"s3BucketName":"bucket1","s3FileName":"patientA.json"}''\<close>

definition emptyBucketBodyText :: string where
  \<open>emptyBucketBodyText = ''{"s3BucketName":"","s3FileName":"patientA.json"}''\<close>

text \<open>\<^verbatim>\<open>JSON.parse\<close> on the two texts above; no other text is parsed in the examples.\<close>

definition exampleJsonParse :: "string \<Rightarrow> error + jsval" where
  "exampleJsonParse s =
     (if s = exampleBodyText
      then Inr (JObject [(''s3BucketName'', JString ''bucket1''),
                         (''s3FileName'', JString ''patientA.json'')])
      else if s = emptyBucketBodyText
      then Inr (JObject [(''s3BucketName'', JString []),
                         (''s3FileName'', JString ''patientA.json'')])
      else Inl (SyntaxError ''Unexpected token''))"

definition exampleEntry :: "string \<Rightarrow> string option \<Rightarrow> BundleEntry" where
  "exampleEntry url st =
     \<lparr>fullUrl = Some url, resource = None,
      response = (case st of None \<Rightarrow> None | Some s \<Rightarrow> Some \<lparr>status = Some s\<rparr>)\<rparr>"

definition exampleBundle :: Bundle where
  "exampleBundle =
     \<lparr>entry = Some [exampleEntry ''urn:1'' None, exampleEntry ''urn:2'' None,
                    exampleEntry ''urn:3'' None]\<rparr>"

definition responseOneFailing :: Bundle where
  "responseOneFailing =
     \<lparr>entry = Some [exampleEntry ''urn:1'' (Some ''201 Created''),
                    exampleEntry ''urn:2'' (Some ''400 Bad Request''),
                    exampleEntry ''urn:3'' (Some ''200 OK'')]\<rparr>"

definition responseAllOk :: Bundle where
  "responseAllOk =
     \<lparr>entry = Some [exampleEntry ''urn:1'' (Some ''200 OK''),
                    exampleEntry ''urn:2'' (Some ''201 Created''),
                    exampleEntry ''urn:3'' (Some ''200 OK'')]\<rparr>"

definition exampleEnv :: Env where
  "exampleEnv =
     \<lparr>lambdaName = ''SqsToFhirLambda'',
      jsonParse = exampleJsonParse,
      dateNow = (\<lambda>h. 1000 + 10 * int (length h)),
      dateParse = (\<lambda>s. if s = ''1970-01-01T00:00:00.500Z'' then Some 500 else None),
      executeWithRetriesS3 =
        (\<lambda>h cfg bucket key.
           if bucket = ''bucket1'' \<and> key = ''patientA.json'' then Inr ''raw bundle''
           else Inl (Error ''NoSuchKey'')),
      parseRawBundleForFhirServer =
        (\<lambda>raw patientId. if raw = ''raw bundle'' then Inr exampleBundle
                          else Inl (Error ''Invalid bundle'')),
      executeBatch =
        (\<lambda>h cxId payload.
           if filter isExecuteBatch h = [] then Inr (Some responseOneFailing)
           else Inr (Some responseAllOk))\<rparr>"

text \<open>The same deployment with a server that fails one entry of every submission.\<close>

definition failingEnv :: Env where
  "failingEnv = exampleEnv\<lparr>executeBatch := (\<lambda>h cxId payload. Inr (Some responseOneFailing))\<rparr>"

definition stringAttribute :: "string \<Rightarrow> SQSMessageAttribute" where
  "stringAttribute v = \<lparr>stringValue = Some v, binaryValue = None, dataType = ''String''\<rparr>"

definition exampleMessage :: SQSRecord where
  "exampleMessage =
     \<lparr>messageId = ''2EBA03BC'',
      body = Some exampleBodyText,
      messageAttributes =
        Some [(''cxId'', stringAttribute ''cx1''), (''patientId'', stringAttribute ''pat1'')]\<rparr>"

text \<open>The same message with a job start time.\<close>

definition startedMessage :: SQSRecord where
  "startedMessage =
     exampleMessage\<lparr>messageAttributes :=
       Some [(''cxId'', stringAttribute ''cx1''), (''patientId'', stringAttribute ''pat1''),
             (''startedAt'', stringAttribute ''1970-01-01T00:00:00.500Z'')]\<rparr>"

text \<open>A message without the patient attribute: the job throws before it fetches.\<close>

definition noPatientMessage :: SQSRecord where
  "noPatientMessage =
     exampleMessage\<lparr>messageAttributes := Some [(''cxId'', stringAttribute ''cx1'')]\<rparr>"

text \<open>The calls of the example job: two submissions, the first with a failing entry.\<close>

definition exampleJobCalls :: "call list" where
  "exampleJobCalls =
     [DateNow 1000,
      ExecuteWithRetriesS3 defaultS3RetriesConfig ''bucket1'' ''patientA.json'' (Inr ''raw bundle''),
      DateNow 1020, DateNow 1030,
      ParseRawBundleForFhirServer ''raw bundle'' ''pat1'' (Inr exampleBundle),
      DateNow 1050,
      ExecuteBatch ''cx1'' exampleBundle (Inr (Some responseOneFailing)),
      ExecuteBatch ''cx1'' exampleBundle (Inr (Some responseAllOk)),
      DateNow 1080, DateNow 1090, DateNow 1100,
      ReportMetrics
        \<lparr>download = Some (DurationMetric (Some 20) 1030),
         upsert = Some (DurationMetric (Some 40) 1100),
         errorCount = Some (CountMetric 2 1080),
         job = None\<rparr>]"

text \<open>The calls of the same job when the message carries the job start time.\<close>

definition startedJobCalls :: "call list" where
  "startedJobCalls =
     [DateNow 1000,
      ExecuteWithRetriesS3 defaultS3RetriesConfig ''bucket1'' ''patientA.json'' (Inr ''raw bundle''),
      DateNow 1020, DateNow 1030,
      ParseRawBundleForFhirServer ''raw bundle'' ''pat1'' (Inr exampleBundle),
      DateNow 1050,
      ExecuteBatch ''cx1'' exampleBundle (Inr (Some responseOneFailing)),
      ExecuteBatch ''cx1'' exampleBundle (Inr (Some responseAllOk)),
      DateNow 1080, DateNow 1090, DateNow 1100, DateNow 1110, DateNow 1120,
      ReportMetrics
        \<lparr>download = Some (DurationMetric (Some 20) 1030),
         upsert = Some (DurationMetric (Some 40) 1100),
         errorCount = Some (CountMetric 2 1080),
         job = Some (DurationMetric (Some 610) 1120)\<rparr>]"

text \<open>The calls of the example job against the server that always fails one entry.\<close>

definition failingJobCalls :: "call list" where
  "failingJobCalls =
     [DateNow 1000,
      ExecuteWithRetriesS3 defaultS3RetriesConfig ''bucket1'' ''patientA.json'' (Inr ''raw bundle''),
      DateNow 1020, DateNow 1030,
      ParseRawBundleForFhirServer ''raw bundle'' ''pat1'' (Inr exampleBundle),
      DateNow 1050]
     @ replicate 10 (ExecuteBatch ''cx1'' exampleBundle (Inr (Some responseOneFailing)))"

section \<open>Properties\<close>

subsection \<open>The error evaluator\<close>

lemma startsWith_2: "startsWith s ''2'' = (\<not> statusFails (Some s))"
  by (cases s) (auto simp: startsWith_def)

lemma not_statusStartsWith2: "(statusStartsWith2 e \<noteq> Some True) = entryFails e"
  by (auto simp: statusStartsWith2_def entryFails_def startsWith_2 split: option.splits)

lemma getErrors_filter: "getErrorsFromReponse r = filter entryFails (responseEntries r)"
  by (simp add: getErrorsFromReponse_def not_statusStartsWith2)

lemma entrySucceeded_iff: "entrySucceeded e = (\<not> entryFails e)"
  by (simp add: entrySucceeded_def getErrors_filter responseEntries_def)

lemma is2xx_not_fails: "is2xxStatus s \<Longrightarrow> \<not> statusFails (Some s)"
  by (cases s rule: is2xxStatus.cases) simp_all

lemma getErrors_examples:
  "getErrorsFromReponse (Some responseOneFailing) = [exampleEntry ''urn:2'' (Some ''400 Bad Request'')]"
  "getErrorsFromReponse (Some responseAllOk) = []"
  by (simp_all add: getErrors_filter responseEntries_def responseOneFailing_def
      responseAllOk_def exampleEntry_def entryFails_def)

text \<open>
  Claim C2. For every response bundle, also an absent one, the evaluator returns exactly
  the entries whose status string does not start with \<^verbatim>\<open>2\<close>, in the order of the
  response: an absent response has no entries and so no errors; otherwise the result is
  the entries filtered by \<open>entryFails\<close>, a subsequence of them; and an entry without a
  response object or without a status is among the errors.
\<close>

theorem getErrorsFromReponse_exact:
  "getErrorsFromReponse None = []
   \<and> getErrorsFromReponse (Some b) = filter entryFails (case entry b of None \<Rightarrow> [] | Some es \<Rightarrow> es)
   \<and> subseq (getErrorsFromReponse (Some b)) (case entry b of None \<Rightarrow> [] | Some es \<Rightarrow> es)
   \<and> (\<forall>e \<in> set (case entry b of None \<Rightarrow> [] | Some es \<Rightarrow> es).
        (response e = None \<or> (\<exists>x. response e = Some x \<and> status x = None))
          \<longrightarrow> e \<in> set (getErrorsFromReponse (Some b)))"
  by (auto simp: getErrors_filter responseEntries_def entryFails_def split: option.splits)

theorem getErrorsFromReponse_exact_witness:
  "getErrorsFromReponse
     (Some \<lparr>entry = Some [exampleEntry ''urn:1'' (Some ''200 OK''), exampleEntry ''urn:2'' None,
                          exampleEntry ''urn:3'' (Some ''404 Not Found'')]\<rparr>)
   = [exampleEntry ''urn:2'' None, exampleEntry ''urn:3'' (Some ''404 Not Found'')]
   \<and> exampleEntry ''urn:2'' None \<in> set (getErrorsFromReponse
     (Some \<lparr>entry = Some [exampleEntry ''urn:1'' (Some ''200 OK''), exampleEntry ''urn:2'' None,
                          exampleEntry ''urn:3'' (Some ''404 Not Found'')]\<rparr>))"
  using getErrorsFromReponse_exact
    [of "\<lparr>entry = Some [exampleEntry ''urn:1'' (Some ''200 OK''), exampleEntry ''urn:2'' None,
                        exampleEntry ''urn:3'' (Some ''404 Not Found'')]\<rparr>"]
  by (simp add: exampleEntry_def entryFails_def)

text \<open>
  Claim C7, as stated: the outcome of an entry is a success if and only if its status is a
  valid HTTP status code from 200 to 299. The evaluator looks at the first character only:
  the status \<^verbatim>\<open>2000\<close> is no code of that range and the entry is a success all the same.
\<close>

theorem entryOutcome_2xx_counterexample:
  "entrySucceeded \<lparr>fullUrl = None, resource = None, response = Some \<lparr>status = Some ''2000''\<rparr>\<rparr>
   \<and> \<not> entryIn2xxRange \<lparr>fullUrl = None, resource = None, response = Some \<lparr>status = Some ''2000''\<rparr>\<rparr>"
  by (simp add: entrySucceeded_iff entryFails_def entryIn2xxRange_def isDigit_def)

text \<open>
  Claim C7, amended. The outcome of an entry is a success if and only if its status string
  starts with \<^verbatim>\<open>2\<close>; so every status in the range 200 to 299 is a success, and an
  entry without a response or without a status is a failure.
\<close>

theorem entryOutcome_prefix_rule:
  "(entrySucceeded e \<longleftrightarrow> (\<exists>r s. response e = Some r \<and> status r = Some (CHR ''2'' # s)))
   \<and> (entryIn2xxRange e \<longrightarrow> entrySucceeded e)
   \<and> (response e = None \<longrightarrow> \<not> entrySucceeded e)
   \<and> (\<forall>r. response e = Some r \<and> status r = None \<longrightarrow> \<not> entrySucceeded e)"
proof -
  have a: "entrySucceeded e \<longleftrightarrow> (\<exists>r s. response e = Some r \<and> status r = Some (CHR ''2'' # s))"
  proof (cases "response e")
    case None
    then show ?thesis by (simp add: entrySucceeded_iff entryFails_def)
  next
    case (Some r)
    then show ?thesis
      by (cases "status r" rule: statusFails.cases) (simp_all add: entrySucceeded_iff entryFails_def)
  qed
  have b: "entryIn2xxRange e \<longrightarrow> entrySucceeded e"
    by (auto simp: entryIn2xxRange_def entrySucceeded_iff entryFails_def is2xx_not_fails
        split: option.splits)
  show ?thesis using a b by auto
qed

theorem entryOutcome_prefix_rule_witness:
  "entryIn2xxRange \<lparr>fullUrl = None, resource = None, response = Some \<lparr>status = Some ''201 Created''\<rparr>\<rparr>
   \<and> entrySucceeded \<lparr>fullUrl = None, resource = None, response = Some \<lparr>status = Some ''201 Created''\<rparr>\<rparr>
   \<and> \<not> entrySucceeded \<lparr>fullUrl = None, resource = None, response = None\<rparr>
   \<and> \<not> entrySucceeded \<lparr>fullUrl = None, resource = None, response = Some \<lparr>status = None\<rparr>\<rparr>"
  using entryOutcome_prefix_rule
      [of "\<lparr>fullUrl = None, resource = None, response = Some \<lparr>status = Some ''201 Created''\<rparr>\<rparr>"]
    entryOutcome_prefix_rule [of "\<lparr>fullUrl = None, resource = None, response = None\<rparr>"]
    entryOutcome_prefix_rule
      [of "\<lparr>fullUrl = None, resource = None, response = Some \<lparr>status = None\<rparr>\<rparr>"]
  by (simp add: entryIn2xxRange_def isDigit_def)

subsection \<open>The body of the queue message\<close>

lemma parseBody_Inr_iff:
  "parseBody env b = Inr eb \<longleftrightarrow>
     (\<exists>s kvs. b = JString s \<and> s \<noteq> [] \<and> jsonParse env s = Inr (JObject kvs)
        \<and> map_of kvs ''s3BucketName'' = Some (JString (s3BucketName eb)) \<and> s3BucketName eb \<noteq> []
        \<and> map_of kvs ''s3FileName'' = Some (JString (s3FileName eb)) \<and> s3FileName eb \<noteq> [])"
proof (cases b)
  case (JString s)
  show ?thesis
  proof (cases "jsonParse env s")
    case (Inl e)
    then show ?thesis using JString by (simp add: parseBody_def)
  next
    case (Inr v)
    show ?thesis
    proof (cases v)
      case (JObject kvs)
      show ?thesis
      proof (cases "map_of kvs ''s3BucketName''")
        case None
        then show ?thesis using JString Inr JObject by (simp add: parseBody_def)
      next
        case (Some bv)
        note bv = this
        show ?thesis
        proof (cases "map_of kvs ''s3FileName''")
          case None
          then show ?thesis using JString Inr JObject bv
            by (cases bv rule: truthy.cases) (simp_all add: parseBody_def)
        next
          case (Some fv)
          then show ?thesis using JString Inr JObject bv
            by (cases bv rule: truthy.cases; cases fv rule: truthy.cases)
               (auto simp add: parseBody_def)
        qed
      qed
    qed (use JString Inr in \<open>simp_all add: parseBody_def\<close>)
  qed
qed (simp_all add: parseBody_def)

lemma parseBody_rejects: "(\<forall>eb. parseBody env b \<noteq> Inr eb) \<Longrightarrow> isl (parseBody env b)"
  by (cases "parseBody env b") simp_all

text \<open>
  Claim C6, as stated: every body that is a JSON object with string-valued
  \<^verbatim>\<open>s3BucketName\<close> and \<^verbatim>\<open>s3FileName\<close> is accepted. The empty string is a string
  value and a falsy one: the check of line 184 throws on it.
\<close>

theorem parseBody_empty_field_counterexample:
  "jsonParse exampleEnv emptyBucketBodyText =
     Inr (JObject [(''s3BucketName'', JString []), (''s3FileName'', JString ''patientA.json'')])
   \<and> parseBody exampleEnv (JString emptyBucketBodyText) = Inl (Error ''Missing s3BucketName'')"
  by (simp add: parseBody_def exampleEnv_def exampleJsonParse_def exampleBodyText_def
      emptyBucketBodyText_def)

text \<open>
  Claim C6, amended. \<open>parseBody\<close> returns the two field values exactly when the body is
  a non-empty string that parses to a JSON object whose \<^verbatim>\<open>s3BucketName\<close> and
  \<^verbatim>\<open>s3FileName\<close> are non-empty strings. It throws on every other body: one that is
  not a string, one that \<^verbatim>\<open>JSON.parse\<close> rejects, one whose parsed value has either
  field missing or not a string.
\<close>

theorem parseBody_nonempty_string_fields:
  "(parseBody env b = Inr eb \<longleftrightarrow>
     (\<exists>s kvs. b = JString s \<and> s \<noteq> [] \<and> jsonParse env s = Inr (JObject kvs)
        \<and> map_of kvs ''s3BucketName'' = Some (JString (s3BucketName eb)) \<and> s3BucketName eb \<noteq> []
        \<and> map_of kvs ''s3FileName'' = Some (JString (s3FileName eb)) \<and> s3FileName eb \<noteq> []))
   \<and> (\<not> isString b \<longrightarrow> isl (parseBody env b))
   \<and> (\<forall>s. b = JString s \<and> isl (jsonParse env s) \<longrightarrow> isl (parseBody env b))
   \<and> (\<forall>s v. b = JString s \<and> jsonParse env s = Inr v
         \<and> ((\<forall>x. getProp v ''s3BucketName'' \<noteq> Inr (JString x))
            \<or> (\<forall>x. getProp v ''s3FileName'' \<noteq> Inr (JString x)))
        \<longrightarrow> isl (parseBody env b))"
proof (intro conjI impI allI)
  show "parseBody env b = Inr eb \<longleftrightarrow>
     (\<exists>s kvs. b = JString s \<and> s \<noteq> [] \<and> jsonParse env s = Inr (JObject kvs)
        \<and> map_of kvs ''s3BucketName'' = Some (JString (s3BucketName eb)) \<and> s3BucketName eb \<noteq> []
        \<and> map_of kvs ''s3FileName'' = Some (JString (s3FileName eb)) \<and> s3FileName eb \<noteq> [])"
    by (rule parseBody_Inr_iff)
next
  assume "\<not> isString b"
  then have "\<forall>eb. parseBody env b \<noteq> Inr eb"
    by (auto simp: parseBody_Inr_iff)
  then show "isl (parseBody env b)" by (rule parseBody_rejects)
next
  fix s assume "b = JString s \<and> isl (jsonParse env s)"
  then have "\<forall>eb. parseBody env b \<noteq> Inr eb"
    by (auto simp: parseBody_Inr_iff)
  then show "isl (parseBody env b)" by (rule parseBody_rejects)
next
  fix s v
  assume "b = JString s \<and> jsonParse env s = Inr v
         \<and> ((\<forall>x. getProp v ''s3BucketName'' \<noteq> Inr (JString x))
            \<or> (\<forall>x. getProp v ''s3FileName'' \<noteq> Inr (JString x)))"
  then have "\<forall>eb. parseBody env b \<noteq> Inr eb"
    by (auto simp: parseBody_Inr_iff)
  then show "isl (parseBody env b)" by (rule parseBody_rejects)
qed

theorem parseBody_nonempty_string_fields_witness:
  "parseBody exampleEnv (JString exampleBodyText)
     = Inr \<lparr>s3BucketName = ''bucket1'', s3FileName = ''patientA.json''\<rparr>
   \<and> isl (parseBody exampleEnv (JNumber (Finite 1)))
   \<and> isl (parseBody exampleEnv (JString ''{''))"
  using parseBody_nonempty_string_fields
      [of exampleEnv "JString exampleBodyText"
        "\<lparr>s3BucketName = ''bucket1'', s3FileName = ''patientA.json''\<rparr>"]
    parseBody_nonempty_string_fields [of exampleEnv "JNumber (Finite 1)"]
    parseBody_nonempty_string_fields [of exampleEnv "JString ''{''"]
  by (simp add: exampleEnv_def exampleJsonParse_def exampleBodyText_def emptyBucketBodyText_def)

subsection \<open>An event without records\<close>

text \<open>
  Claim C10. For an event whose \<^verbatim>\<open>Records\<close> is missing or empty the handler returns
  normally and makes no call at all: no fetch, no submission, no metrics report and no
  capture; the history is unchanged.
\<close>

theorem handler_no_records:
  "Records event = None \<or> Records event = Some [] \<Longrightarrow> handler env event h = (Inr (), h)"
  by (auto simp: handler_def handlerBody_def)

theorem handler_no_records_witness:
  "handler exampleEnv \<lparr>Records = None\<rparr> [] = (Inr (), [])
   \<and> handler exampleEnv \<lparr>Records = Some []\<rparr> [DateNow 1] = (Inr (), [DateNow 1])"
  using handler_no_records [of "\<lparr>Records = None\<rparr>" exampleEnv "[]"]
    handler_no_records [of "\<lparr>Records = Some []\<rparr>" exampleEnv "[DateNow 1]"]
  by simp

subsection \<open>The retry loop\<close>

lemma loopOutcome_Cons:
  "loopOutcome (n + 1) rs res \<Longrightarrow> rs \<noteq> [] \<Longrightarrow> loopOutcome n (r # rs) res"
  by (auto simp: loopOutcome_def split: sum.splits prod.splits)

lemma retryLoop_shape:
  "retryLoop env cx p n h = (res, h') \<Longrightarrow>
   \<exists>rs. rs \<noteq> [] \<and> h' = h @ map (ExecuteBatch cx p) rs
      \<and> (\<forall>i<length rs. rs ! i = executeBatch env (h @ map (ExecuteBatch cx p) (take i rs)) cx p)
      \<and> (\<forall>r\<in>set (butlast rs). attemptFailed r)
      \<and> (n < maxRetries \<longrightarrow> n + length rs \<le> maxRetries)
      \<and> loopOutcome n rs res"
proof (induction env cx p n h arbitrary: res h' rule: retryLoop.induct)
  case (1 env cx p n h)
  define r where "r = executeBatch env h cx p"
  show ?case
  proof (cases r)
    case (Inl e)
    with "1.prems" have "res = Inl e" "h' = h @ [ExecuteBatch cx p r]"
      by (simp_all add: retryLoop.simps [of env cx p n h] r_def)
    then show ?thesis
      using Inl by (intro exI [of _ "[r]"]) (simp add: loopOutcome_def r_def)
  next
    case (Inr resp)
    show ?thesis
    proof (cases "getErrorsFromReponse resp = []")
      case True
      with "1.prems" Inr have "res = Inr (resp, n + 1)" "h' = h @ [ExecuteBatch cx p r]"
        by (simp_all add: retryLoop.simps [of env cx p n h] r_def)
      then show ?thesis
        using Inr True by (intro exI [of _ "[r]"]) (simp add: loopOutcome_def r_def)
    next
      case False
      show ?thesis
      proof (cases "n + 1 < maxRetries")
        case stop: False
        with "1.prems" Inr \<open>getErrorsFromReponse resp \<noteq> []\<close>
        have "res = Inl (tooManyErrors (n + 1))" "h' = h @ [ExecuteBatch cx p r]"
          by (simp_all add: retryLoop.simps [of env cx p n h] r_def tooManyErrors_def)
        then show ?thesis
          using Inr False stop
          by (intro exI [of _ "[r]"]) (simp add: loopOutcome_def r_def attemptFailed_def)
      next
        case again: True
        with "1.prems" Inr False
        have rec: "retryLoop env cx p (n + 1) (h @ [ExecuteBatch cx p r]) = (res, h')"
          by (simp add: retryLoop.simps [of env cx p n h] r_def)
        from "1.IH" [OF refl refl refl Inr [unfolded r_def] _ _ rec [unfolded r_def]] False again
        obtain rs where rs: "rs \<noteq> []" "h' = (h @ [ExecuteBatch cx p r]) @ map (ExecuteBatch cx p) rs"
          "\<forall>i<length rs. rs ! i = executeBatch env ((h @ [ExecuteBatch cx p r]) @ map (ExecuteBatch cx p) (take i rs)) cx p"
          "\<forall>r\<in>set (butlast rs). attemptFailed r"
          "n + 1 + length rs \<le> maxRetries"
          "loopOutcome (n + 1) rs res"
          by (auto simp: r_def)
        have idx: "(r # rs) ! i = executeBatch env (h @ map (ExecuteBatch cx p) (take i (r # rs))) cx p"
          if "i < length (r # rs)" for i
          using that rs(3) by (cases i) (simp_all add: r_def)
        have "attemptFailed r" using Inr False by (simp add: attemptFailed_def)
        then show ?thesis
          using rs(1,2,4,5) idx loopOutcome_Cons [OF rs(6) rs(1), of r]
          by (intro exI [of _ "r # rs"]) simp
      qed
    qed
  qed
qed

lemma attemptClean_not_failed: "attemptClean r \<Longrightarrow> \<not> attemptFailed r"
  by (simp add: attemptClean_def attemptFailed_def split: sum.splits)


lemma loopOutcome_last_failed:
  "loopOutcome n rs res \<Longrightarrow> attemptFailed (last rs) \<Longrightarrow>
     maxRetries \<le> n + length rs \<and> res = Inl (tooManyErrors (n + length rs))"
  by (auto simp: loopOutcome_def attemptFailed_def split: sum.splits prod.splits)

lemma loopOutcome_last_clean:
  "loopOutcome n rs res \<Longrightarrow> attemptClean (last rs) \<Longrightarrow>
     \<exists>resp. last rs = Inr resp \<and> res = Inr (resp, n + length rs)"
  by (auto simp: loopOutcome_def attemptFailed_def attemptClean_def split: sum.splits prod.splits)



text \<open>
  Claim C4. In every run of the loop, a submission whose response has no failing entry is
  the last submission of the run, whatever the number of failing submissions before it,
  and the loop then returns that response and the number of submissions made, without
  an error. Moreover such a submission is reached: if, for some \<open>k\<close> from 1 to 10, the
  first \<open>k - 1\<close> submissions come back with failing entries and the \<open>k\<close>-th with none,
  the loop makes exactly \<open>k\<close> submissions and returns normally with \<open>count = k\<close>.
\<close>

theorem retryLoop_stops_at_first_clean:
  "\<exists>rs. rs \<noteq> [] \<and> snd (retryLoop env cx p 0 h) = h @ map (ExecuteBatch cx p) rs
     \<and> (\<forall>i<length rs. attemptClean (rs ! i) \<longrightarrow>
           Suc i = length rs
           \<and> (\<exists>resp. rs ! i = Inr resp \<and> fst (retryLoop env cx p 0 h) = Inr (resp, Suc i)))
     \<and> (\<forall>k. 1 \<le> k \<and> k \<le> 10
           \<and> (\<forall>rs'. length rs' < k - 1
                  \<longrightarrow> attemptFailed (executeBatch env (h @ map (ExecuteBatch cx p) rs') cx p))
           \<and> (\<forall>rs'. length rs' = k - 1
                  \<longrightarrow> attemptClean (executeBatch env (h @ map (ExecuteBatch cx p) rs') cx p))
           \<longrightarrow> length rs = k
              \<and> (\<exists>resp. fst (retryLoop env cx p 0 h) = Inr (resp, k)))"
proof -
  obtain res h' where run: "retryLoop env cx p 0 h = (res, h')"
    by (cases "retryLoop env cx p 0 h")
  from retryLoop_shape [OF run]
  obtain rs where rs: "rs \<noteq> []" "h' = h @ map (ExecuteBatch cx p) rs"
    "\<forall>i<length rs. rs ! i = executeBatch env (h @ map (ExecuteBatch cx p) (take i rs)) cx p"
    "\<forall>r\<in>set (butlast rs). attemptFailed r"
    "length rs \<le> maxRetries" "loopOutcome 0 rs res"
    by (auto simp: maxRetries_def)
  have early: "attemptFailed (rs ! i)" if "Suc i < length rs" for i
  proof -
    from that have "rs ! i = butlast rs ! i" "i < length (butlast rs)"
      by (simp_all add: nth_butlast)
    then have "rs ! i \<in> set (butlast rs)" by (metis nth_mem)
    with rs(4) show ?thesis by blast
  qed
  have a: "Suc i = length rs \<and> (\<exists>resp. rs ! i = Inr resp \<and> res = Inr (resp, Suc i))"
    if "i < length rs" "attemptClean (rs ! i)" for i
  proof -
    from that early [of i] have len: "Suc i = length rs"
      using attemptClean_not_failed by fastforce
    then have "length rs - 1 = i" by simp
    then have "last rs = rs ! i"
      using rs(1) by (simp add: last_conv_nth)
    with that(2) loopOutcome_last_clean [OF rs(6)] len show ?thesis by auto
  qed
  have b: "length rs = k \<and> (\<exists>resp. res = Inr (resp, k))"
    if k: "1 \<le> k" "k \<le> 10"
      and before: "\<forall>rs'. length rs' < k - 1
                  \<longrightarrow> attemptFailed (executeBatch env (h @ map (ExecuteBatch cx p) rs') cx p)"
      and at: "\<forall>rs'. length rs' = k - 1
                  \<longrightarrow> attemptClean (executeBatch env (h @ map (ExecuteBatch cx p) rs') cx p)"
    for k
  proof -
    have nth_failed: "attemptFailed (rs ! i)" if "i < length rs" "i < k - 1" for i
      using that rs(3) before by simp
    have nth_clean: "attemptClean (rs ! i)" if "i < length rs" "i = k - 1" for i
      using that rs(3) at by simp
    have "\<not> length rs < k"
    proof
      assume short: "length rs < k"
      from rs(1) have pos: "0 < length rs" by simp
      with short have "length rs - 1 < length rs" "length rs - 1 < k - 1" by arith+
      then have "attemptFailed (rs ! (length rs - 1))"
        by (rule nth_failed)
      then have "attemptFailed (last rs)"
        using rs(1) by (simp add: last_conv_nth)
      from loopOutcome_last_failed [OF rs(6) this] short k show False
        by (simp add: maxRetries_def)
    qed
    moreover have "\<not> k < length rs"
    proof
      assume long: "k < length rs"
      with k have "k - 1 < length rs" "Suc (k - 1) < length rs" by arith+
      then have "attemptClean (rs ! (k - 1))" "attemptFailed (rs ! (k - 1))"
        using nth_clean [of "k - 1"] early [of "k - 1"] by simp_all
      then have "attemptClean (rs ! (k - 1))" by simp
      moreover note \<open>attemptFailed (rs ! (k - 1))\<close>
      ultimately show False using attemptClean_not_failed by blast
    qed
    ultimately have len: "length rs = k" by simp
    with k have "k - 1 < length rs" by arith
    then have "attemptClean (rs ! (k - 1))" using nth_clean [of "k - 1"] by simp
    with \<open>k - 1 < length rs\<close> a [of "k - 1"] k len show ?thesis
      by auto
  qed
  show ?thesis
    using run rs(1,2) a b by (intro exI [of _ rs]) auto
qed

theorem retryLoop_stops_at_first_clean_witness:
  "\<exists>rs resp. length rs = 2
     \<and> retryLoop exampleEnv ''cx1'' exampleBundle 0 [] =
         (Inr (resp, 2), map (ExecuteBatch ''cx1'' exampleBundle) rs)"
proof -
  have first: "attemptFailed (executeBatch exampleEnv ([] @ map (ExecuteBatch ''cx1'' exampleBundle) rs')
                 ''cx1'' exampleBundle)" if "length rs' < 2 - 1" for rs'
    using that by (simp add: exampleEnv_def attemptFailed_def getErrors_examples)
  have second: "attemptClean (executeBatch exampleEnv ([] @ map (ExecuteBatch ''cx1'' exampleBundle) rs')
                 ''cx1'' exampleBundle)" if "length rs' = 2 - 1" for rs'
    using that by (cases rs') (simp_all add: exampleEnv_def attemptClean_def getErrors_examples)
  from retryLoop_stops_at_first_clean [of exampleEnv "''cx1''" exampleBundle "[]"]
  obtain rs where rs: "snd (retryLoop exampleEnv ''cx1'' exampleBundle 0 [])
        = [] @ map (ExecuteBatch ''cx1'' exampleBundle) rs"
    and progress: "\<forall>k. 1 \<le> k \<and> k \<le> 10
           \<and> (\<forall>rs'. length rs' < k - 1
                  \<longrightarrow> attemptFailed (executeBatch exampleEnv
                         ([] @ map (ExecuteBatch ''cx1'' exampleBundle) rs') ''cx1'' exampleBundle))
           \<and> (\<forall>rs'. length rs' = k - 1
                  \<longrightarrow> attemptClean (executeBatch exampleEnv
                         ([] @ map (ExecuteBatch ''cx1'' exampleBundle) rs') ''cx1'' exampleBundle))
           \<longrightarrow> length rs = k
              \<and> (\<exists>resp. fst (retryLoop exampleEnv ''cx1'' exampleBundle 0 []) = Inr (resp, k))"
    by blast
  from progress [rule_format, of 2] first second
  obtain resp where "length rs = 2"
    "fst (retryLoop exampleEnv ''cx1'' exampleBundle 0 []) = Inr (resp, 2)"
    by auto
  with rs show ?thesis
    by (cases "retryLoop exampleEnv ''cx1'' exampleBundle 0 []") auto
qed

subsection \<open>One job\<close>

text \<open>
  The calls of one job, by the point where it ends: the four ways \<open>processJob\<close> can
  go, and before it the checks of \<open>processRecord\<close>.
\<close>

lemma finishJob_shape:
  assumes "finishJob env js metrics us resp n h = (res, h')"
    and "getErrorsFromReponse resp = []" and "job metrics = None"
  shows "res = Inr () \<and>
    (\<exists>te t2 ts2 t3 ts3 jobReads ms.
       h' = h @ [DateNow te, DateNow t2, DateNow ts2] @ jobReads @ [ReportMetrics ms]
       \<and> jobReads = (if truthyString js then [DateNow t3, DateNow ts3] else [])
       \<and> download ms = download metrics
       \<and> errorCount ms = Some (CountMetric n te)
       \<and> upsert ms = Some (DurationMetric (Some (t2 - us)) ts2)
       \<and> (job ms \<noteq> None \<longleftrightarrow> truthyString js))"
  using assms
  by (auto simp: finishJob_def Let_def processFHIRResponse_def reportMetrics_def
      split: if_splits prod.splits)

lemma processJob_cases:
  assumes "processJob env cx pid js eb h = (res, h')"
  obtains
    (fetchFailed) t0 e where
      "res = Inl e"
      "h' = h @ [DateNow t0,
            ExecuteWithRetriesS3 defaultS3RetriesConfig (s3BucketName eb) (s3FileName eb) (Inl e)]"
  | (parseFailed) t0 raw t1 ts1 e where
      "res = Inl e"
      "h' = h @ [DateNow t0,
            ExecuteWithRetriesS3 defaultS3RetriesConfig (s3BucketName eb) (s3FileName eb) (Inr raw),
            DateNow t1, DateNow ts1, ParseRawBundleForFhirServer raw pid (Inl e)]"
  | (loopFailed) t0 raw t1 ts1 payload us rs e where
      "res = Inl e"
      "h' = h @ [DateNow t0,
            ExecuteWithRetriesS3 defaultS3RetriesConfig (s3BucketName eb) (s3FileName eb) (Inr raw),
            DateNow t1, DateNow ts1, ParseRawBundleForFhirServer raw pid (Inr payload), DateNow us]
            @ map (ExecuteBatch cx payload) rs"
      "parseRawBundleForFhirServer env raw pid = Inr payload"
      "rs \<noteq> []" "length rs \<le> maxRetries" "\<forall>r\<in>set (butlast rs). attemptFailed r"
      "loopOutcome 0 rs (Inl e)"
  | (completed) t0 raw t1 ts1 payload us rs resp te t2 ts2 t3 ts3 jobReads ms where
      "res = Inr ()"
      "h' = h @ [DateNow t0,
            ExecuteWithRetriesS3 defaultS3RetriesConfig (s3BucketName eb) (s3FileName eb) (Inr raw),
            DateNow t1, DateNow ts1, ParseRawBundleForFhirServer raw pid (Inr payload), DateNow us]
            @ map (ExecuteBatch cx payload) rs
            @ [DateNow te, DateNow t2, DateNow ts2] @ jobReads @ [ReportMetrics ms]"
      "parseRawBundleForFhirServer env raw pid = Inr payload"
      "rs \<noteq> []" "length rs \<le> maxRetries" "\<forall>r\<in>set (butlast rs). attemptFailed r"
      "last rs = Inr resp" "getErrorsFromReponse resp = []"
      "jobReads = (if truthyString js then [DateNow t3, DateNow ts3] else [])"
      "download ms = Some (DurationMetric (Some (t1 - t0)) ts1)"
      "errorCount ms = Some (CountMetric (length rs) te)"
      "upsert ms = Some (DurationMetric (Some (t2 - us)) ts2)"
      "job ms \<noteq> None \<longleftrightarrow> truthyString js"
proof -
  let ?b = "s3BucketName eb" and ?k = "s3FileName eb"
  let ?t0 = "dateNow env h"
  let ?fetched = "executeWithRetriesS3 env (h @ [DateNow ?t0]) defaultS3RetriesConfig ?b ?k"
  let ?h2 = "h @ [DateNow ?t0, ExecuteWithRetriesS3 defaultS3RetriesConfig ?b ?k ?fetched]"
  show thesis
  proof (cases ?fetched)
    case (Inl e)
    with assms have "res = Inl e" "h' = ?h2"
      by (simp_all add: processJob_def Let_def)
    then show thesis
      using Inl fetchFailed [of e ?t0] by simp
  next
    case (Inr raw)
    let ?t1 = "dateNow env ?h2"
    let ?ts1 = "dateNow env (?h2 @ [DateNow ?t1])"
    let ?parsed = "parseRawBundleForFhirServer env raw pid"
    let ?h5 = "?h2 @ [DateNow ?t1, DateNow ?ts1, ParseRawBundleForFhirServer raw pid ?parsed]"
    show thesis
    proof (cases ?parsed)
      case (Inl e)
      with assms Inr have "res = Inl e" "h' = ?h5"
        by (simp_all add: processJob_def Let_def)
      then show thesis
        using Inl Inr parseFailed [of e ?t0 raw ?t1 ?ts1] by simp
    next
      case payload: (Inr payload)
      let ?us = "dateNow env ?h5"
      let ?metrics = "emptyMetrics\<lparr>download := Some (DurationMetric (Some (?t1 - ?t0)) ?ts1)\<rparr>"
      obtain lr h7 where loop: "retryLoop env cx payload 0 (?h5 @ [DateNow ?us]) = (lr, h7)"
        by (cases "retryLoop env cx payload 0 (?h5 @ [DateNow ?us])")
      from retryLoop_shape [OF loop]
      obtain rs where rs: "rs \<noteq> []" "h7 = (?h5 @ [DateNow ?us]) @ map (ExecuteBatch cx payload) rs"
        "\<forall>r\<in>set (butlast rs). attemptFailed r" "length rs \<le> maxRetries" "loopOutcome 0 rs lr"
        by (auto simp: maxRetries_def)
      have unfold: "(res, h') =
        (case lr of Inl e \<Rightarrow> (Inl e, h7)
         | Inr (resp, n) \<Rightarrow> finishJob env js ?metrics ?us resp n h7)"
        using assms Inr payload loop
        by (simp add: processJob_def Let_def split: sum.splits prod.splits)
      show thesis
      proof (cases lr)
        case (Inl e)
        with unfold have "res = Inl e" "h' = h7" by simp_all
        then show thesis
          using Inl Inr payload rs loopFailed [of e ?t0 raw ?t1 ?ts1 payload ?us rs] by simp
      next
        case ok: (Inr pr)
        obtain resp n where pr: "pr = (resp, n)" by (cases pr)
        with ok unfold have fin: "finishJob env js ?metrics ?us resp n h7 = (res, h')" by simp
        from rs(5) ok pr have last: "last rs = Inr resp" "getErrorsFromReponse resp = []" "n = length rs"
          by (simp_all add: loopOutcome_def)
        from finishJob_shape [OF fin last(2)]
        obtain te t2 ts2 t3 ts3 jobReads ms where f:
          "res = Inr ()"
          "h' = h7 @ [DateNow te, DateNow t2, DateNow ts2] @ jobReads @ [ReportMetrics ms]"
          "jobReads = (if truthyString js then [DateNow t3, DateNow ts3] else [])"
          "download ms = download ?metrics" "errorCount ms = Some (CountMetric n te)"
          "upsert ms = Some (DurationMetric (Some (t2 - ?us)) ts2)"
          "job ms \<noteq> None \<longleftrightarrow> truthyString js"
          by (auto simp: emptyMetrics_def simp del: append.simps)
        have "download ms = Some (DurationMetric (Some (?t1 - ?t0)) ?ts1)"
          using f(4) by simp
        then show thesis
          using f(1,2,3,5,6,7) last Inr payload rs(1,2,3,4)
            completed [of ?t0 raw ?t1 ?ts1 payload ?us rs te t2 ts2 jobReads ms resp t3 ts3]
          by simp
      qed
    qed
  qed
qed

lemma processRecord_cases:
  assumes "processRecord env message h = (res, h')"
  obtains
    (rejected) e where "res = Inl e" "h' = h"
  | (job) attrib b cx pid eb where
      "messageAttributes message = Some attrib" "body message = Some b"
      "attribString attrib ''cxId'' = Some cx" "attribString attrib ''patientId'' = Some pid"
      "parseBody env (JString b) = Inr eb"
      "processJob env cx pid (attribString attrib ''startedAt'') eb h = (res, h')"
proof (cases "messageAttributes message")
  case None
  with assms have "res = Inl (Error ''Missing message attributes'')" "h' = h"
    by (simp_all add: processRecord_def)
  then show thesis by (rule rejected)
next
  case (Some attrib)
  show thesis
  proof (cases "truthyString (body message) \<and> truthyString (attribString attrib ''cxId'')
      \<and> truthyString (attribString attrib ''patientId'')")
    case False
    with assms Some have "\<exists>e. res = Inl e \<and> h' = h"
      by (auto simp add: processRecord_def Let_def split: if_splits)
    then show thesis using rejected by blast
  next
    case True
    then obtain b cx pid where v: "body message = Some b"
      "attribString attrib ''cxId'' = Some cx" "attribString attrib ''patientId'' = Some pid"
      by (cases "body message"; cases "attribString attrib ''cxId''";
          cases "attribString attrib ''patientId''") auto
    show thesis
    proof (cases "parseBody env (JString b)")
      case (Inl e)
      with assms Some True v have "res = Inl e" "h' = h"
        by (simp_all add: processRecord_def Let_def)
      then show thesis by (rule rejected)
    next
      case (Inr eb)
      with assms Some True v
      have "processJob env cx pid (attribString attrib ''startedAt'') eb h = (res, h')"
        by (simp add: processRecord_def Let_def)
      with Some v Inr show thesis by (intro job [of attrib b cx pid eb])
    qed
  qed
qed

lemma filter_map_ExecuteBatch [simp]:
  "filter isFetch (map (ExecuteBatch cx p) rs) = []"
  "filter isParse (map (ExecuteBatch cx p) rs) = []"
  "filter isReportMetrics (map (ExecuteBatch cx p) rs) = []"
  "filter isCaptureMessage (map (ExecuteBatch cx p) rs) = []"
  "filter isCaptureError (map (ExecuteBatch cx p) rs) = []"
  "filter isExecuteBatch (map (ExecuteBatch cx p) rs) = map (ExecuteBatch cx p) rs"
  by (induction rs) simp_all

lemma fetchTargets_append [simp]: "fetchTargets (xs @ ys) = fetchTargets xs @ fetchTargets ys"
  by (induction xs rule: fetchTargets.induct) simp_all

lemma fetchTargets_map_ExecuteBatch [simp]: "fetchTargets (map (ExecuteBatch cx p) rs) = []"
  by (induction rs) simp_all

lemma reportedMetrics_append [simp]:
  "reportedMetrics (xs @ ys) = reportedMetrics xs @ reportedMetrics ys"
  by (induction xs rule: reportedMetrics.induct) simp_all

lemma reportedMetrics_map_ExecuteBatch [simp]: "reportedMetrics (map (ExecuteBatch cx p) rs) = []"
  by (induction rs) simp_all

lemma job_calls_split:
  assumes "rs \<noteq> []" "\<forall>c\<in>set post. \<not> isFetch c \<and> \<not> isParse c \<and> \<not> isExecuteBatch c"
  shows "\<exists>pre subs post' cfg bucket key raw' pid' payload' cx'.
      [DateNow t0, ExecuteWithRetriesS3 cfg0 b k (Inr raw), DateNow t1, DateNow ts1,
       ParseRawBundleForFhirServer raw pid (Inr payload), DateNow us]
        @ map (ExecuteBatch cx payload) rs @ post = pre @ subs @ post'
      \<and> filter isFetch pre = [ExecuteWithRetriesS3 cfg bucket key (Inr raw')]
      \<and> filter isParse pre = [ParseRawBundleForFhirServer raw' pid' (Inr payload')]
      \<and> filter isExecuteBatch pre = []
      \<and> subs \<noteq> [] \<and> (\<forall>c\<in>set subs. \<exists>r. c = ExecuteBatch cx' payload' r)
      \<and> (\<forall>c\<in>set post'. \<not> isFetch c \<and> \<not> isParse c \<and> \<not> isExecuteBatch c)"
  apply (rule exI [of _ "[DateNow t0, ExecuteWithRetriesS3 cfg0 b k (Inr raw), DateNow t1, DateNow ts1,
       ParseRawBundleForFhirServer raw pid (Inr payload), DateNow us]"])
  apply (rule exI [of _ "map (ExecuteBatch cx payload) rs"])
  apply (rule exI [of _ post])
  apply (rule exI [of _ cfg0])
  apply (rule exI [of _ b])
  apply (rule exI [of _ k])
  apply (rule exI [of _ raw])
  apply (rule exI [of _ pid])
  apply (rule exI [of _ payload])
  apply (rule exI [of _ cx])
  using assms apply auto
  done

lemma startedAt_truthy_iff:
  "truthyString (attribString attrib ''startedAt'') \<longleftrightarrow>
     (\<exists>a v. map_of attrib ''startedAt'' = Some a \<and> stringValue a = Some v \<and> v \<noteq> [])"
  by (cases "map_of attrib ''startedAt''")
     (auto simp: attribString_def elim: truthyString.elims)

lemma jobReads_DateNow:
  "jobReads = (if c then [DateNow a, DateNow b] else []) \<Longrightarrow> \<forall>x\<in>set jobReads. isDateNow x"
  by auto

lemma DateNow_list_filters:
  assumes "\<forall>x\<in>set xs. isDateNow x"
  shows "filter isExecuteBatch xs = []" "filter isFetch xs = []" "filter isParse xs = []"
    "filter isReportMetrics xs = []" "filter isCaptureMessage xs = []"
    "filter isCaptureError xs = []" "fetchTargets xs = []" "reportedMetrics xs = []"
  using assms
  by (induction xs; (auto elim: isDateNow.elims)[1])+

lemma example_run: "processRecord exampleEnv exampleMessage [] = (Inr (), exampleJobCalls)"
  by (simp add: processRecord_def exampleMessage_def attribString_def stringAttribute_def
      parseBody_def exampleEnv_def exampleJsonParse_def exampleBodyText_def emptyBucketBodyText_def
      processJob_def Let_def retryLoop.simps finishJob_def processFHIRResponse_def
      reportMetrics_def emptyMetrics_def maxRetries_def exampleJobCalls_def getErrors_examples)

lemma started_run: "processRecord exampleEnv startedMessage [] = (Inr (), startedJobCalls)"
  by (simp add: processRecord_def exampleMessage_def startedMessage_def attribString_def stringAttribute_def
      parseBody_def exampleEnv_def exampleJsonParse_def exampleBodyText_def emptyBucketBodyText_def
      processJob_def Let_def retryLoop.simps finishJob_def processFHIRResponse_def
      reportMetrics_def emptyMetrics_def maxRetries_def startedJobCalls_def getErrors_examples)

lemma failing_run:
  "processRecord failingEnv exampleMessage [] = (Inl (tooManyErrors 10), failingJobCalls)"
  by (simp add: processRecord_def exampleMessage_def attribString_def stringAttribute_def
      parseBody_def exampleEnv_def failingEnv_def exampleJsonParse_def exampleBodyText_def emptyBucketBodyText_def
      processJob_def Let_def retryLoop.simps finishJob_def processFHIRResponse_def
      reportMetrics_def emptyMetrics_def maxRetries_def failingJobCalls_def getErrors_examples
      tooManyErrors_def numeral_eq_Suc)

text \<open>
  Claim C9. A job that has a retry loop (it makes a submission) has made exactly one
  fetch and exactly one parse of what the fetch returned, both before its first
  submission; every submission carries the bundle that this parse returned; and no fetch
  or parse comes between the submissions or after them. A job that throws before the
  loop has made at most one fetch and at most one parse.
\<close>

theorem job_fetches_and_parses_once:
  assumes "processRecord env message h = (res, h')"
  shows "\<exists>new. h' = h @ new
     \<and> length (filter isFetch new) \<le> 1 \<and> length (filter isParse new) \<le> 1
     \<and> (filter isExecuteBatch new \<noteq> [] \<longrightarrow>
         length (filter isFetch new) = 1 \<and> length (filter isParse new) = 1
         \<and> (\<exists>pre subs post cfg bucket key raw pid payload cx.
              new = pre @ subs @ post
              \<and> filter isFetch pre = [ExecuteWithRetriesS3 cfg bucket key (Inr raw)]
              \<and> filter isParse pre = [ParseRawBundleForFhirServer raw pid (Inr payload)]
              \<and> filter isExecuteBatch pre = []
              \<and> subs \<noteq> [] \<and> (\<forall>c\<in>set subs. \<exists>r. c = ExecuteBatch cx payload r)
              \<and> (\<forall>c\<in>set post. \<not> isFetch c \<and> \<not> isParse c \<and> \<not> isExecuteBatch c)))"
  using assms
proof (cases rule: processRecord_cases)
  case (rejected e)
  then show ?thesis by simp
next
  case (job attrib b cx pid eb)
  from job(6) show ?thesis
  proof (cases rule: processJob_cases)
    case (fetchFailed t0 e)
    then show ?thesis by simp
  next
    case (parseFailed t0 raw t1 ts1 e)
    then show ?thesis by simp
  next
    case (loopFailed t0 raw t1 ts1 payload us rs e)
    let ?new = "[DateNow t0,
            ExecuteWithRetriesS3 defaultS3RetriesConfig (s3BucketName eb) (s3FileName eb) (Inr raw),
            DateNow t1, DateNow ts1, ParseRawBundleForFhirServer raw pid (Inr payload), DateNow us]
            @ map (ExecuteBatch cx payload) rs @ []"
    have counts: "length (filter isFetch ?new) = 1" "length (filter isParse ?new) = 1"
      by simp_all
    have split: "\<exists>pre subs post cfg bucket key raw pid payload cx.
              ?new = pre @ subs @ post
              \<and> filter isFetch pre = [ExecuteWithRetriesS3 cfg bucket key (Inr raw)]
              \<and> filter isParse pre = [ParseRawBundleForFhirServer raw pid (Inr payload)]
              \<and> filter isExecuteBatch pre = []
              \<and> subs \<noteq> [] \<and> (\<forall>c\<in>set subs. \<exists>r. c = ExecuteBatch cx payload r)
              \<and> (\<forall>c\<in>set post. \<not> isFetch c \<and> \<not> isParse c \<and> \<not> isExecuteBatch c)"
      by (rule job_calls_split [OF loopFailed(4)]) simp
    have "h' = h @ ?new" using loopFailed(2) by simp
    with counts split show ?thesis by (intro exI [of _ ?new]) (simp only: simp_thms le_refl)
  next
    case (completed t0 raw t1 ts1 payload us rs resp te t2 ts2 t3 ts3 jobReads ms)
    let ?post = "[DateNow te, DateNow t2, DateNow ts2] @ jobReads @ [ReportMetrics ms]"
    let ?new = "[DateNow t0,
            ExecuteWithRetriesS3 defaultS3RetriesConfig (s3BucketName eb) (s3FileName eb) (Inr raw),
            DateNow t1, DateNow ts1, ParseRawBundleForFhirServer raw pid (Inr payload), DateNow us]
            @ map (ExecuteBatch cx payload) rs @ ?post"
    have post: "\<forall>c\<in>set ?post. \<not> isFetch c \<and> \<not> isParse c \<and> \<not> isExecuteBatch c"
      using completed(9) by auto
    have counts: "length (filter isFetch ?new) = 1" "length (filter isParse ?new) = 1"
      using completed(9) by auto
    have split: "\<exists>pre subs post cfg bucket key raw pid payload cx.
              ?new = pre @ subs @ post
              \<and> filter isFetch pre = [ExecuteWithRetriesS3 cfg bucket key (Inr raw)]
              \<and> filter isParse pre = [ParseRawBundleForFhirServer raw pid (Inr payload)]
              \<and> filter isExecuteBatch pre = []
              \<and> subs \<noteq> [] \<and> (\<forall>c\<in>set subs. \<exists>r. c = ExecuteBatch cx payload r)
              \<and> (\<forall>c\<in>set post. \<not> isFetch c \<and> \<not> isParse c \<and> \<not> isExecuteBatch c)"
      by (rule job_calls_split [OF completed(4) post])
    have "h' = h @ ?new" using completed(2) by simp
    with counts split show ?thesis by (intro exI [of _ ?new]) (simp only: simp_thms le_refl)
  qed
qed

theorem job_fetches_and_parses_once_witness:
  "processRecord exampleEnv exampleMessage [] = (Inr (), exampleJobCalls)
   \<and> filter isExecuteBatch exampleJobCalls \<noteq> []
   \<and> (\<exists>new. exampleJobCalls = [] @ new
     \<and> length (filter isFetch new) \<le> 1 \<and> length (filter isParse new) \<le> 1
     \<and> (filter isExecuteBatch new \<noteq> [] \<longrightarrow>
         length (filter isFetch new) = 1 \<and> length (filter isParse new) = 1
         \<and> (\<exists>pre subs post cfg bucket key raw pid payload cx.
              new = pre @ subs @ post
              \<and> filter isFetch pre = [ExecuteWithRetriesS3 cfg bucket key (Inr raw)]
              \<and> filter isParse pre = [ParseRawBundleForFhirServer raw pid (Inr payload)]
              \<and> filter isExecuteBatch pre = []
              \<and> subs \<noteq> [] \<and> (\<forall>c\<in>set subs. \<exists>r. c = ExecuteBatch cx payload r)
              \<and> (\<forall>c\<in>set post. \<not> isFetch c \<and> \<not> isParse c \<and> \<not> isExecuteBatch c))))"
proof (intro conjI)
  show "processRecord exampleEnv exampleMessage [] = (Inr (), exampleJobCalls)"
    by (rule example_run)
  show "filter isExecuteBatch exampleJobCalls \<noteq> []"
    by (simp add: exampleJobCalls_def)
  show "\<exists>new. exampleJobCalls = [] @ new
     \<and> length (filter isFetch new) \<le> 1 \<and> length (filter isParse new) \<le> 1
     \<and> (filter isExecuteBatch new \<noteq> [] \<longrightarrow>
         length (filter isFetch new) = 1 \<and> length (filter isParse new) = 1
         \<and> (\<exists>pre subs post cfg bucket key raw pid payload cx.
              new = pre @ subs @ post
              \<and> filter isFetch pre = [ExecuteWithRetriesS3 cfg bucket key (Inr raw)]
              \<and> filter isParse pre = [ParseRawBundleForFhirServer raw pid (Inr payload)]
              \<and> filter isExecuteBatch pre = []
              \<and> subs \<noteq> [] \<and> (\<forall>c\<in>set subs. \<exists>r. c = ExecuteBatch cx payload r)
              \<and> (\<forall>c\<in>set post. \<not> isFetch c \<and> \<not> isParse c \<and> \<not> isExecuteBatch c)))"
    by (rule job_fetches_and_parses_once [OF example_run])
qed

lemma startedAt_interface:
  assumes "job ms \<noteq> None \<longleftrightarrow> truthyString (attribString attrib ''startedAt'')"
    and "messageAttributes message = Some attrib"
  shows "startedAtIsString message \<longrightarrow> (job ms \<noteq> None \<longleftrightarrow> carriesStartedAt message)"
  using assms
  by (cases "map_of attrib ''startedAt''")
     (simp_all add: startedAtIsString_def carriesStartedAt_def attribString_def)

text \<open>
  Claim C5. The calls of a completed job are: the clock, the fetch, the clock twice, the
  parse, the clock, the submissions, the clock three times, the clock twice more when
  there is a job start time, and one metrics report, the only one of the job and its last
  call. The reported record has a \<^verbatim>\<open>download\<close> duration (the clock after the fetch
  minus the clock before it), an \<^verbatim>\<open>upsert\<close> duration that spans all the submissions
  (a clock reading taken after the last one minus the reading taken before the first),
  and an \<^verbatim>\<open>errorCount\<close> whose count is the number of submissions. It has a
  \<^verbatim>\<open>job\<close> entry if and only if the \<^verbatim>\<open>startedAt\<close> attribute of the message has a
  non-empty \<^verbatim>\<open>stringValue\<close>; so, for a message of the interface, where the attribute
  is a string whenever it is there, if and only if the message carried the attribute.
\<close>

theorem completed_job_metrics:
  assumes "processRecord env message h = (Inr (), h')"
  shows "\<exists>new d0 fetch d1 tsd parse t0 subs te t1 tsu jobReads ms.
     h' = h @ new
     \<and> new = [DateNow d0, fetch, DateNow d1, DateNow tsd, parse, DateNow t0] @ subs
             @ [DateNow te, DateNow t1, DateNow tsu] @ jobReads @ [ReportMetrics ms]
     \<and> isFetch fetch \<and> isParse parse \<and> (\<forall>c\<in>set jobReads. isDateNow c)
     \<and> subs \<noteq> [] \<and> filter isExecuteBatch new = subs
     \<and> reportedMetrics new = [ms]
     \<and> download ms = Some (DurationMetric (Some (d1 - d0)) tsd)
     \<and> upsert ms = Some (DurationMetric (Some (t1 - t0)) tsu)
     \<and> errorCount ms = Some (CountMetric (length subs) te)
     \<and> (job ms \<noteq> None \<longleftrightarrow>
          (\<exists>attrib a v. messageAttributes message = Some attrib
             \<and> map_of attrib ''startedAt'' = Some a \<and> stringValue a = Some v \<and> v \<noteq> []))
     \<and> (startedAtIsString message \<longrightarrow> (job ms \<noteq> None \<longleftrightarrow> carriesStartedAt message))"
  using assms
proof (cases rule: processRecord_cases)
  case (rejected e)
  then show ?thesis by simp
next
  case (job attrib b cx pid eb)
  from job(6) show ?thesis
  proof (cases rule: processJob_cases)
    case (fetchFailed t0 e)
    then show ?thesis by simp
  next
    case (parseFailed t0 raw t1 ts1 e)
    then show ?thesis by simp
  next
    case (loopFailed t0 raw t1 ts1 payload us rs e)
    then show ?thesis by simp
  next
    case (completed t0 raw t1 ts1 payload us rs resp te t2 ts2 t3 ts3 jobReads ms)
    let ?fetch = "ExecuteWithRetriesS3 defaultS3RetriesConfig (s3BucketName eb) (s3FileName eb) (Inr raw)"
    let ?parse = "ParseRawBundleForFhirServer raw pid (Inr payload)"
    let ?subs = "map (ExecuteBatch cx payload) rs"
    let ?new = "[DateNow t0, ?fetch, DateNow t1, DateNow ts1, ?parse, DateNow us] @ ?subs
             @ [DateNow te, DateNow t2, DateNow ts2] @ jobReads @ [ReportMetrics ms]"
    note reads = jobReads_DateNow [OF completed(9)]
    have "h' = h @ ?new" using completed(2) by simp
    moreover have "filter isExecuteBatch ?new = ?subs" "reportedMetrics ?new = [ms]"
      using DateNow_list_filters [OF reads] by simp_all
    moreover have "job ms \<noteq> None \<longleftrightarrow>
          (\<exists>attrib a v. messageAttributes message = Some attrib
             \<and> map_of attrib ''startedAt'' = Some a \<and> stringValue a = Some v \<and> v \<noteq> [])"
      using completed(13) job(1) by (simp add: startedAt_truthy_iff)
    moreover have "startedAtIsString message \<longrightarrow> (job ms \<noteq> None \<longleftrightarrow> carriesStartedAt message)"
      using completed(13) job(1) by (rule startedAt_interface)
    moreover have "?subs \<noteq> []" "length ?subs = length rs" using completed(4) by simp_all
    moreover have "isFetch ?fetch" "isParse ?parse" by simp_all
    ultimately show ?thesis
      using reads completed(10,11,12)
      apply (intro exI [of _ ?new])
      apply (rule exI [of _ t0])
      apply (rule exI [of _ ?fetch])
      apply (rule exI [of _ t1])
      apply (rule exI [of _ ts1])
      apply (rule exI [of _ ?parse])
      apply (rule exI [of _ us])
      apply (rule exI [of _ ?subs])
      apply (rule exI [of _ te])
      apply (rule exI [of _ t2])
      apply (rule exI [of _ ts2])
      apply (rule exI [of _ jobReads])
      apply (rule exI [of _ ms])
      apply (simp only: simp_thms)
      done
  qed
qed

theorem completed_job_metrics_witness:
  "processRecord exampleEnv startedMessage [] = (Inr (), startedJobCalls)
   \<and> startedAtIsString startedMessage \<and> carriesStartedAt startedMessage
   \<and> (\<exists>ms te. reportedMetrics startedJobCalls = [ms] \<and> job ms \<noteq> None
         \<and> download ms \<noteq> None \<and> upsert ms \<noteq> None
         \<and> errorCount ms = Some (CountMetric 2 te))
   \<and> processRecord exampleEnv exampleMessage [] = (Inr (), exampleJobCalls)
   \<and> startedAtIsString exampleMessage \<and> \<not> carriesStartedAt exampleMessage
   \<and> (\<exists>ms. reportedMetrics exampleJobCalls = [ms] \<and> job ms = None)"
proof -
  have iface: "startedAtIsString startedMessage" "carriesStartedAt startedMessage"
    "startedAtIsString exampleMessage" "\<not> carriesStartedAt exampleMessage"
    by (simp_all add: startedAtIsString_def carriesStartedAt_def startedMessage_def
        exampleMessage_def stringAttribute_def)
  from completed_job_metrics [OF started_run]
  obtain new d0 fetch d1 tsd parse t0 subs te t1 tsu jobReads ms where a:
    "startedJobCalls = [] @ new"
    "new = [DateNow d0, fetch, DateNow d1, DateNow tsd, parse, DateNow t0] @ subs
             @ [DateNow te, DateNow t1, DateNow tsu] @ jobReads @ [ReportMetrics ms]"
    "isFetch fetch" "isParse parse" "\<forall>c\<in>set jobReads. isDateNow c"
    "subs \<noteq> []" "filter isExecuteBatch new = subs"
    "reportedMetrics new = [ms]"
    "download ms = Some (DurationMetric (Some (d1 - d0)) tsd)"
    "upsert ms = Some (DurationMetric (Some (t1 - t0)) tsu)"
    "errorCount ms = Some (CountMetric (length subs) te)"
    "job ms \<noteq> None \<longleftrightarrow>
          (\<exists>attrib a v. messageAttributes startedMessage = Some attrib
             \<and> map_of attrib ''startedAt'' = Some a \<and> stringValue a = Some v \<and> v \<noteq> [])"
    "startedAtIsString startedMessage \<longrightarrow> (job ms \<noteq> None \<longleftrightarrow> carriesStartedAt startedMessage)"
    by (elim exE conjE) (rule that, assumption+)
  have "length subs = 2"
    using a(1,7) by (auto simp add: startedJobCalls_def)
  with a(1,8,9,10,11,13) iface have first: "\<exists>ms te. reportedMetrics startedJobCalls = [ms] \<and> job ms \<noteq> None
         \<and> download ms \<noteq> None \<and> upsert ms \<noteq> None
         \<and> errorCount ms = Some (CountMetric 2 te)"
    by (intro exI [of _ ms] exI [of _ te]) simp
  from completed_job_metrics [OF example_run]
  obtain new' d0' fetch' d1' tsd' parse' t0' subs' te' t1' tsu' jobReads' ms' where b:
    "exampleJobCalls = [] @ new'"
    "new' = [DateNow d0', fetch', DateNow d1', DateNow tsd', parse', DateNow t0'] @ subs'
             @ [DateNow te', DateNow t1', DateNow tsu'] @ jobReads' @ [ReportMetrics ms']"
    "isFetch fetch'" "isParse parse'" "\<forall>c\<in>set jobReads'. isDateNow c"
    "subs' \<noteq> []" "filter isExecuteBatch new' = subs'"
    "reportedMetrics new' = [ms']"
    "download ms' = Some (DurationMetric (Some (d1' - d0')) tsd')"
    "upsert ms' = Some (DurationMetric (Some (t1' - t0')) tsu')"
    "errorCount ms' = Some (CountMetric (length subs') te')"
    "job ms' \<noteq> None \<longleftrightarrow>
          (\<exists>attrib a v. messageAttributes exampleMessage = Some attrib
             \<and> map_of attrib ''startedAt'' = Some a \<and> stringValue a = Some v \<and> v \<noteq> [])"
    "startedAtIsString exampleMessage \<longrightarrow> (job ms' \<noteq> None \<longleftrightarrow> carriesStartedAt exampleMessage)"
    by (elim exE conjE) (rule that, assumption+)
  from b(1,8,13) iface have second: "\<exists>ms. reportedMetrics exampleJobCalls = [ms] \<and> job ms = None"
    by (intro exI [of _ ms']) simp
  from started_run example_run iface first second show ?thesis
    by (intro conjI)
qed

subsection \<open>The records of one invocation\<close>

lemma processRecord_calls:
  assumes "processRecord env message h = (res, h')"
  shows "\<exists>new. h' = h @ new
     \<and> filter isCaptureMessage new = [] \<and> filter isCaptureError new = []
     \<and> length (filter isReportMetrics new) = (if isl res then 0 else 1)
     \<and> prefix (map Some (fetchTargets new)) [recordTarget env message]
     \<and> (\<not> isl res \<longrightarrow> map Some (fetchTargets new) = [recordTarget env message])"
  using assms
proof (cases rule: processRecord_cases)
  case (rejected e)
  then show ?thesis by simp
next
  case (job attrib b cx pid eb)
  have target: "recordTarget env message = Some (s3BucketName eb, s3FileName eb)"
    using job(2,5) by (simp add: recordTarget_def)
  from job(6) show ?thesis
  proof (cases rule: processJob_cases)
    case (fetchFailed t0 e)
    then show ?thesis by (simp add: target)
  next
    case (parseFailed t0 raw t1 ts1 e)
    then show ?thesis by (simp add: target)
  next
    case (loopFailed t0 raw t1 ts1 payload us rs e)
    then show ?thesis by (simp add: target)
  next
    case (completed t0 raw t1 ts1 payload us rs resp te t2 ts2 t3 ts3 jobReads ms)
    note reads = DateNow_list_filters [OF jobReads_DateNow [OF completed(9)]]
    from completed(1,2) show ?thesis by (simp add: target reads)
  qed
qed

lemma processRecords_calls:
  "processRecords env ms h = (res, h') \<Longrightarrow>
   \<exists>new. h' = h @ new
     \<and> filter isCaptureMessage new = [] \<and> filter isCaptureError new = []
     \<and> prefix (map Some (fetchTargets new)) (map (recordTarget env) ms)
     \<and> (case res of
          Inr u \<Rightarrow> length (filter isReportMetrics new) = length ms
                   \<and> map Some (fetchTargets new) = map (recordTarget env) ms
        | Inl e \<Rightarrow> \<exists>before failing rest hmid.
                   ms = before @ failing # rest
                   \<and> length (filter isReportMetrics new) = length before
                   \<and> processRecords env before h = (Inr (), hmid)
                   \<and> processRecord env failing hmid = (Inl e, h'))"
proof (induction ms arbitrary: h res h')
  case Nil
  then have "res = Inr ()" "h' = h" by simp_all
  then show ?case by (intro exI [of _ "[]"]) simp
next
  case (Cons m ms)
  obtain r1 h1 where first: "processRecord env m h = (r1, h1)"
    by (cases "processRecord env m h")
  from processRecord_calls [OF first]
  obtain new1 where n1: "h1 = h @ new1"
    "filter isCaptureMessage new1 = []" "filter isCaptureError new1 = []"
    "length (filter isReportMetrics new1) = (if isl r1 then 0 else 1)"
    "prefix (map Some (fetchTargets new1)) [recordTarget env m]"
    "\<not> isl r1 \<longrightarrow> map Some (fetchTargets new1) = [recordTarget env m]"
    by (elim exE conjE) (rule that, assumption+)
  show ?case
  proof (cases r1)
    case (Inl e)
    with Cons.prems first have res: "res = Inl e" "h' = h1" by simp_all
    have "prefix (map Some (fetchTargets new1)) (map (recordTarget env) (m # ms))"
    proof -
      have "prefix [recordTarget env m] (map (recordTarget env) (m # ms))" by simp
      with n1(5) show ?thesis by (rule prefix_order.trans)
    qed
    moreover have "\<exists>before failing rest hmid.
                   m # ms = before @ failing # rest
                   \<and> length (filter isReportMetrics new1) = length before
                   \<and> processRecords env before h = (Inr (), hmid)
                   \<and> processRecord env failing hmid = (Inl e, h')"
      using n1(4) Inl first res
      apply (rule_tac x = "[]" in exI)
      apply (rule_tac x = m in exI)
      apply (rule_tac x = ms in exI)
      apply (rule_tac x = h in exI)
      apply simp
      done
    ultimately show ?thesis
      using res n1(1,2,3) by (intro exI [of _ new1]) simp
  next
    case (Inr u)
    with Cons.prems first have rest: "processRecords env ms h1 = (res, h')" by simp
    from Cons.IH [OF rest]
    obtain new2 where n2: "h' = h1 @ new2"
      "filter isCaptureMessage new2 = []" "filter isCaptureError new2 = []"
      "prefix (map Some (fetchTargets new2)) (map (recordTarget env) ms)"
      "case res of
          Inr u \<Rightarrow> length (filter isReportMetrics new2) = length ms
                   \<and> map Some (fetchTargets new2) = map (recordTarget env) ms
        | Inl e \<Rightarrow> \<exists>before failing rest hmid.
                   ms = before @ failing # rest
                   \<and> length (filter isReportMetrics new2) = length before
                   \<and> processRecords env before h1 = (Inr (), hmid)
                   \<and> processRecord env failing hmid = (Inl e, h')"
      by (elim exE conjE) (rule that, assumption+)
    from Inr n1(4,6) have one: "length (filter isReportMetrics new1) = 1"
      "map Some (fetchTargets new1) = [recordTarget env m]" by simp_all
    have pre: "prefix (map Some (fetchTargets (new1 @ new2))) (map (recordTarget env) (m # ms))"
      using one(2) n2(4) by simp
    have out: "case res of
          Inr u \<Rightarrow> length (filter isReportMetrics (new1 @ new2)) = length (m # ms)
                   \<and> map Some (fetchTargets (new1 @ new2)) = map (recordTarget env) (m # ms)
        | Inl e \<Rightarrow> \<exists>before failing rest hmid.
                   m # ms = before @ failing # rest
                   \<and> length (filter isReportMetrics (new1 @ new2)) = length before
                   \<and> processRecords env before h = (Inr (), hmid)
                   \<and> processRecord env failing hmid = (Inl e, h')"
    proof (cases res)
      case ok: (Inr v)
      with n2(5) one show ?thesis by simp
    next
      case (Inl e)
      with n2(5) have "\<exists>before failing rest hmid.
                   ms = before @ failing # rest
                   \<and> length (filter isReportMetrics new2) = length before
                   \<and> processRecords env before h1 = (Inr (), hmid)
                   \<and> processRecord env failing hmid = (Inl e, h')"
        by (simp only: sum.case)
      then obtain before failing rest hmid where d:
        "ms = before @ failing # rest" "length (filter isReportMetrics new2) = length before"
        "processRecords env before h1 = (Inr (), hmid)"
        "processRecord env failing hmid = (Inl e, h')"
        by (elim exE conjE) (rule that, assumption+)
      have "processRecords env (m # before) h = (Inr (), hmid)"
        using first Inr d(3) by simp
      with d(1,2,4) one(1) have "m # ms = (m # before) @ failing # rest
                   \<and> length (filter isReportMetrics (new1 @ new2)) = length (m # before)
                   \<and> processRecords env (m # before) h = (Inr (), hmid)
                   \<and> processRecord env failing hmid = (Inl e, h')"
        by simp
      then have "\<exists>before failing rest hmid.
                   m # ms = before @ failing # rest
                   \<and> length (filter isReportMetrics (new1 @ new2)) = length before
                   \<and> processRecords env before h = (Inr (), hmid)
                   \<and> processRecord env failing hmid = (Inl e, h')"
        by (intro exI)
      then show ?thesis using Inl by (simp only: sum.case)
    qed
    show ?thesis
      using n1(1,2,3) n2(1,2,3) pre out by (intro exI [of _ "new1 @ new2"]) simp
  qed
qed

lemma processRecords_fails_at:
  "processRecords env before h = (Inr (), hmid) \<Longrightarrow> processRecord env failing hmid = (Inl e, hf)
    \<Longrightarrow> processRecords env (before @ failing # rest) h = (Inl e, hf)"
proof (induction before arbitrary: h)
  case Nil
  then show ?case by simp
next
  case (Cons m ms)
  obtain r1 h1 where first: "processRecord env m h = (r1, h1)"
    by (cases "processRecord env m h")
  with Cons.prems(1) have r1: "r1 = Inr ()" and rest: "processRecords env ms h1 = (Inr (), hmid)"
    by (cases r1; simp)+
  from Cons.IH [OF rest Cons.prems(2)] first r1 show ?case by simp
qed

lemma handlerBody_records:
  "Records event = Some records \<Longrightarrow> records \<noteq> [] \<Longrightarrow>
     handlerBody env event h = processRecords env records (afterCardinalityCheck records h)"
  by (cases records) (simp_all add: handlerBody_def afterCardinalityCheck_def captureMessage_def Let_def)

lemma handler_catch:
  "handlerBody env event h = (Inl e, h1) \<Longrightarrow>
     handler env event h =
       (Inl (MetriportError (handlerErrorMessage env) (Some e) None),
        h1 @ [CaptureError (handlerErrorMessage env) e])"
  by (simp add: handler_def handlerErrorMessage_def captureError_def Let_def)

lemma handler_return:
  "handlerBody env event h = (Inr u, h1) \<Longrightarrow> handler env event h = (Inr u, h1)"
  by (simp add: handler_def)

lemma two_jobs_return:
  "fst (handler exampleEnv \<lparr>Records = Some [exampleMessage, exampleMessage]\<rparr> []) = Inr ()"
  by (simp add: handler_def handlerBody_def captureMessage_def
      processRecord_def exampleMessage_def attribString_def stringAttribute_def
      parseBody_def exampleEnv_def exampleJsonParse_def exampleBodyText_def emptyBucketBodyText_def
      processJob_def Let_def retryLoop.simps finishJob_def processFHIRResponse_def
      reportMetrics_def emptyMetrics_def maxRetries_def getErrors_examples)

lemma rejected_then_valid_run:
  "handler exampleEnv \<lparr>Records = Some [noPatientMessage, exampleMessage]\<rparr> [] =
     (Inl (MetriportError ''Error processing event on SqsToFhirLambda''
             (Some (Error ''Missing patientId'')) None),
      [CaptureMessage ''Got more than one message from SQS'' None,
       CaptureError ''Error processing event on SqsToFhirLambda'' (Error ''Missing patientId'')])"
  by (simp add: handler_def handlerBody_def captureMessage_def captureError_def Let_def
      processRecord_def noPatientMessage_def exampleMessage_def attribString_def
      stringAttribute_def exampleBodyText_def exampleEnv_def)

lemma example_target:
  "recordTarget exampleEnv exampleMessage = Some (''bucket1'', ''patientA.json'')"
  by (simp add: recordTarget_def exampleMessage_def
      parseBody_def exampleEnv_def exampleJsonParse_def exampleBodyText_def emptyBucketBodyText_def)

text \<open>
  Claim C3. Let a job of the event throw \<open>cause\<close> when its turn comes, the jobs before it
  having completed (storage retrieval exhausted, a malformed bundle, the retry ceiling:
  whatever makes \<open>processRecord\<close> throw). Then the handler throws one error, the
  \<^verbatim>\<open>MetriportError\<close> of line 173 whose cause is \<open>cause\<close>; its last call is the one
  \<^verbatim>\<open>capture.error\<close> of the invocation, with that cause; and the failing job has
  reported no metrics (and made no capture call of its own).
\<close>

theorem job_fatal_error_escalation:
  assumes "Records event = Some (before @ failing # rest)"
    and "processRecords env before (afterCardinalityCheck (before @ failing # rest) h) = (Inr (), hmid)"
    and "processRecord env failing hmid = (Inl cause, hfail)"
  shows "handler env event h =
           (Inl (MetriportError (handlerErrorMessage env) (Some cause) None),
            hfail @ [CaptureError (handlerErrorMessage env) cause])
     \<and> (\<exists>new. hfail = h @ new \<and> filter isCaptureError new = [])
     \<and> (\<exists>newf. hfail = hmid @ newf \<and> filter isReportMetrics newf = []
           \<and> filter isCaptureError newf = [] \<and> filter isCaptureMessage newf = [])"
proof -
  let ?records = "before @ failing # rest"
  let ?h1 = "afterCardinalityCheck ?records h"
  have body: "handlerBody env event h = (Inl cause, hfail)"
    using handlerBody_records [OF assms(1), of env h] processRecords_fails_at [OF assms(2,3), of rest]
    by simp
  obtain new0 where new0: "?h1 = h @ new0" "filter isCaptureError new0 = []"
    by (cases "length ?records > 1") (simp_all add: afterCardinalityCheck_def)
  from processRecords_calls [OF assms(2)]
  obtain new1 where new1: "hmid = ?h1 @ new1" "filter isCaptureError new1 = []"
    by (elim exE conjE) (rule that, assumption+)
  from processRecord_calls [OF assms(3)]
  obtain newf where newf: "hfail = hmid @ newf" "filter isCaptureMessage newf = []"
    "filter isCaptureError newf = []" "length (filter isReportMetrics newf) = (if isl (Inl cause :: error + unit) then 0 else 1)"
    by (elim exE conjE) (rule that, assumption+)
  have a: "\<exists>new. hfail = h @ new \<and> filter isCaptureError new = []"
    using new0 new1 newf(1,3) by (intro exI [of _ "new0 @ new1 @ newf"]) simp
  have b: "\<exists>newf. hfail = hmid @ newf \<and> filter isReportMetrics newf = []
           \<and> filter isCaptureError newf = [] \<and> filter isCaptureMessage newf = []"
    using newf by (intro exI [of _ newf]) simp
  from handler_catch [OF body] a b show ?thesis by (intro conjI)
qed

theorem job_fatal_error_escalation_witness:
  "processRecord failingEnv exampleMessage [] = (Inl (tooManyErrors 10), failingJobCalls)
   \<and> handler failingEnv \<lparr>Records = Some [exampleMessage]\<rparr> [] =
           (Inl (MetriportError (handlerErrorMessage failingEnv) (Some (tooManyErrors 10)) None),
            failingJobCalls @ [CaptureError (handlerErrorMessage failingEnv) (tooManyErrors 10)])
   \<and> filter isReportMetrics failingJobCalls = []
   \<and> filter isCaptureError failingJobCalls = []"
proof -
  have recs: "Records \<lparr>Records = Some [exampleMessage]\<rparr> = Some ([] @ exampleMessage # [])"
    by simp
  have before: "processRecords failingEnv [] (afterCardinalityCheck ([] @ exampleMessage # []) [])
      = (Inr (), [])"
    by (simp add: afterCardinalityCheck_def)
  from job_fatal_error_escalation [OF recs before failing_run] failing_run show ?thesis
    by auto
qed

text \<open>
  Claim C8, as stated: with more than one record the handler processes every received
  job. The loop over the records ends at the first job that throws: of two records, the
  first without a patient attribute and the second a valid one, the second is never
  processed; its object is never fetched.
\<close>

theorem later_records_not_processed_counterexample:
  "handler exampleEnv \<lparr>Records = Some [noPatientMessage, exampleMessage]\<rparr> [] =
     (Inl (MetriportError ''Error processing event on SqsToFhirLambda''
             (Some (Error ''Missing patientId'')) None),
      [CaptureMessage ''Got more than one message from SQS'' None,
       CaptureError ''Error processing event on SqsToFhirLambda'' (Error ''Missing patientId'')])
   \<and> recordTarget exampleEnv exampleMessage = Some (''bucket1'', ''patientA.json'')
   \<and> fetchTargets
         (snd (handler exampleEnv \<lparr>Records = Some [noPatientMessage, exampleMessage]\<rparr> [])) = []"
proof (intro conjI)
  show "recordTarget exampleEnv exampleMessage = Some (''bucket1'', ''patientA.json'')"
    by (rule example_target)
qed (simp_all add: rejected_then_valid_run)

text \<open>
  Claim C8, amended. With more than one record the first call of the handler is the
  notification \<^verbatim>\<open>Got more than one message from SQS\<close>, and it is the only
  \<^verbatim>\<open>capture.message\<close> of the invocation. The handler then runs the jobs of the
  records in their order, from the history the notification leaves, and one of two
  things happens. Either no job throws: the loop runs through all the records, the
  handler returns normally, and the objects fetched are those the records name, in the
  order of the records, each record having reported its metrics. Or a job throws: the
  jobs of the records before it have run to their end, fetching what those records name
  and reporting their metrics, that job has reported none, the records after it are not
  processed, and the handler captures and rethrows the error of that job.
\<close>

theorem more_than_one_record_notified:
  assumes "Records event = Some records" and "length records > 1"
  shows "\<exists>new. snd (handler env event h)
               = h @ CaptureMessage ''Got more than one message from SQS'' None # new
     \<and> filter isCaptureMessage new = []
     \<and> prefix (map Some (fetchTargets new)) (map (recordTarget env) records)
     \<and> ((processRecords env records
             (h @ [CaptureMessage ''Got more than one message from SQS'' None])
            = (Inr (), h @ CaptureMessage ''Got more than one message from SQS'' None # new)
          \<and> handler env event h
            = (Inr (), h @ CaptureMessage ''Got more than one message from SQS'' None # new)
          \<and> map Some (fetchTargets new) = map (recordTarget env) records
          \<and> length (filter isReportMetrics new) = length records)
        \<or> (\<exists>before failing rest newb newf cause.
             records = before @ failing # rest
             \<and> processRecords env before
                  (h @ [CaptureMessage ''Got more than one message from SQS'' None])
                = (Inr (), h @ CaptureMessage ''Got more than one message from SQS'' None # newb)
             \<and> processRecord env failing
                  (h @ CaptureMessage ''Got more than one message from SQS'' None # newb)
                = (Inl cause,
                   h @ CaptureMessage ''Got more than one message from SQS'' None # newb @ newf)
             \<and> new = newb @ newf @ [CaptureError (handlerErrorMessage env) cause]
             \<and> handler env event h
                = (Inl (MetriportError (handlerErrorMessage env) (Some cause) None),
                   h @ CaptureMessage ''Got more than one message from SQS'' None # new)
             \<and> map Some (fetchTargets newb) = map (recordTarget env) before
             \<and> length (filter isReportMetrics newb) = length before
             \<and> filter isReportMetrics newf = []
             \<and> length (filter isReportMetrics new) = length before))"
proof -
  let ?note = "CaptureMessage ''Got more than one message from SQS'' None"
  from assms(2) have ne: "records \<noteq> []" by auto
  have h1: "afterCardinalityCheck records h = h @ [?note]"
    using assms(2) by (simp add: afterCardinalityCheck_def)
  obtain res h' where run: "processRecords env records (h @ [?note]) = (res, h')"
    by (cases "processRecords env records (h @ [?note])")
  have body: "handlerBody env event h = (res, h')"
    using handlerBody_records [OF assms(1) ne, of env h] h1 run by simp
  from processRecords_calls [OF run]
  obtain new where new: "h' = (h @ [?note]) @ new"
    "filter isCaptureMessage new = []" "filter isCaptureError new = []"
    "prefix (map Some (fetchTargets new)) (map (recordTarget env) records)"
    "case res of
          Inr u \<Rightarrow> length (filter isReportMetrics new) = length records
                   \<and> map Some (fetchTargets new) = map (recordTarget env) records
        | Inl e \<Rightarrow> \<exists>before failing rest hmid.
                   records = before @ failing # rest
                   \<and> length (filter isReportMetrics new) = length before
                   \<and> processRecords env before (h @ [?note]) = (Inr (), hmid)
                   \<and> processRecord env failing hmid = (Inl e, h')"
    by (elim exE conjE) (rule that, assumption+)
  show ?thesis
  proof (cases res)
    case (Inr u)
    with body have ret: "handler env event h = (Inr (), h')" by (simp add: handler_return)
    have "snd (handler env event h) = h @ ?note # new"
      using ret new(1) by simp
    moreover have "processRecords env records (h @ [?note]) = (Inr (), h @ ?note # new)"
      "handler env event h = (Inr (), h @ ?note # new)"
      "map Some (fetchTargets new) = map (recordTarget env) records"
      "length (filter isReportMetrics new) = length records"
      using run ret new(1,5) Inr by simp_all
    ultimately show ?thesis
      using new(2,4) by (intro exI [of _ new] conjI disjI1)
  next
    case (Inl e)
    let ?msg = "handlerErrorMessage env"
    from Inl body have thrown: "handler env event h =
       (Inl (MetriportError ?msg (Some e) None), h' @ [CaptureError ?msg e])"
      by (simp add: handler_catch)
    from new(5) Inl have "\<exists>before failing rest hmid.
                   records = before @ failing # rest
                   \<and> length (filter isReportMetrics new) = length before
                   \<and> processRecords env before (h @ [?note]) = (Inr (), hmid)
                   \<and> processRecord env failing hmid = (Inl e, h')"
      by (simp only: sum.case)
    then obtain before failing rest hmid where d:
      "records = before @ failing # rest" "length (filter isReportMetrics new) = length before"
      "processRecords env before (h @ [?note]) = (Inr (), hmid)"
      "processRecord env failing hmid = (Inl e, h')"
      by (elim exE conjE) (rule that, assumption+)
    from processRecords_calls [OF d(3)]
    obtain newb where newb: "hmid = (h @ [?note]) @ newb"
      "case (Inr () :: error + unit) of
          Inr u \<Rightarrow> length (filter isReportMetrics newb) = length before
                   \<and> map Some (fetchTargets newb) = map (recordTarget env) before
        | Inl e \<Rightarrow> \<exists>before' failing rest hmid'.
                   before = before' @ failing # rest
                   \<and> length (filter isReportMetrics newb) = length before'
                   \<and> processRecords env before' (h @ [?note]) = (Inr (), hmid')
                   \<and> processRecord env failing hmid' = (Inl e, hmid)"
      by (elim exE conjE) (rule that, assumption+)
    from processRecord_calls [OF d(4)]
    obtain newf where newf: "h' = hmid @ newf"
      "length (filter isReportMetrics newf) = (if isl (Inl e :: error + unit) then 0 else 1)"
      by (elim exE conjE) (rule that, assumption+)
    let ?new = "newb @ newf @ [CaptureError ?msg e]"
    have eq: "new = newb @ newf" using new(1) newf(1) newb(1) by simp
    have facts: "records = before @ failing # rest"
      "processRecords env before (h @ [?note]) = (Inr (), h @ ?note # newb)"
      "processRecord env failing (h @ ?note # newb) = (Inl e, h @ ?note # newb @ newf)"
      "?new = newb @ newf @ [CaptureError ?msg e]"
      "handler env event h = (Inl (MetriportError ?msg (Some e) None), h @ ?note # ?new)"
      "map Some (fetchTargets newb) = map (recordTarget env) before"
      "length (filter isReportMetrics newb) = length before"
      "filter isReportMetrics newf = []"
      "length (filter isReportMetrics ?new) = length before"
      using d(1,3,4) newb newf thrown by simp_all
    have throwing: "\<exists>before failing rest newb newf cause.
             records = before @ failing # rest
             \<and> processRecords env before (h @ [?note]) = (Inr (), h @ ?note # newb)
             \<and> processRecord env failing (h @ ?note # newb)
                = (Inl cause, h @ ?note # newb @ newf)
             \<and> ?new = newb @ newf @ [CaptureError (handlerErrorMessage env) cause]
             \<and> handler env event h
                = (Inl (MetriportError (handlerErrorMessage env) (Some cause) None),
                   h @ ?note # ?new)
             \<and> map Some (fetchTargets newb) = map (recordTarget env) before
             \<and> length (filter isReportMetrics newb) = length before
             \<and> filter isReportMetrics newf = []
             \<and> length (filter isReportMetrics ?new) = length before"
      apply (rule exI [of _ before])
      apply (rule exI [of _ failing])
      apply (rule exI [of _ rest])
      apply (rule exI [of _ newb])
      apply (rule exI [of _ newf])
      apply (rule exI [of _ e])
      using facts apply (intro conjI)
              apply assumption+
      done
    have "snd (handler env event h) = h @ ?note # ?new"
      using facts(5) by simp
    moreover have "filter isCaptureMessage ?new = []"
      using new(2) eq by simp
    moreover have "prefix (map Some (fetchTargets ?new)) (map (recordTarget env) records)"
      using new(4) eq by simp
    ultimately show ?thesis
      using throwing by (intro exI [of _ ?new] conjI disjI2)
  qed
qed

theorem more_than_one_record_notified_witness:
  "length [exampleMessage, exampleMessage] > 1
   \<and> fst (handler exampleEnv \<lparr>Records = Some [exampleMessage, exampleMessage]\<rparr> []) = Inr ()
   \<and> (\<exists>new. snd (handler exampleEnv \<lparr>Records = Some [exampleMessage, exampleMessage]\<rparr> [])
               = CaptureMessage ''Got more than one message from SQS'' None # new
        \<and> filter isCaptureMessage new = []
        \<and> map Some (fetchTargets new)
            = [Some (''bucket1'', ''patientA.json''), Some (''bucket1'', ''patientA.json'')]
        \<and> length (filter isReportMetrics new) = 2)"
proof -
  let ?event = "\<lparr>Records = Some [exampleMessage, exampleMessage]\<rparr>"
  let ?note = "CaptureMessage ''Got more than one message from SQS'' None"
  have recs: "Records ?event = Some [exampleMessage, exampleMessage]" by simp
  have many: "length [exampleMessage, exampleMessage] > 1" by simp
  from more_than_one_record_notified [OF recs many, of exampleEnv "[]"]
  obtain new where new:
    "snd (handler exampleEnv ?event []) = [] @ ?note # new"
    "filter isCaptureMessage new = []"
    "(handler exampleEnv ?event [] = (Inr (), [] @ ?note # new)
          \<and> map Some (fetchTargets new) = map (recordTarget exampleEnv) [exampleMessage, exampleMessage]
          \<and> length (filter isReportMetrics new) = length [exampleMessage, exampleMessage])
     \<or> (\<exists>cause. handler exampleEnv ?event []
                = (Inl (MetriportError (handlerErrorMessage exampleEnv) (Some cause) None),
                   [] @ ?note # new))"
    by (elim exE conjE disjE) (rule that, simp, simp, blast)+
  from new(3) two_jobs_return
  have "map Some (fetchTargets new)
            = [Some (''bucket1'', ''patientA.json''), Some (''bucket1'', ''patientA.json'')]"
    "length (filter isReportMetrics new) = 2"
    by (auto simp add: example_target)
  with new(1,2) two_jobs_return many show ?thesis
    by (intro conjI exI [of _ new]) simp_all
qed

end
